theory Spec2Isabelle
  imports Main
begin

section \<open>The Logo interpreter of logo.js: values\<close>

text \<open>
  A Logo value is a number, a boolean, a string (word) or a list. The source's numbers
  are doubles; the model carries the integers, on which the arithmetic of doubles is exact
  below \<open>2 ^ 53\<close>. The source's \<open>List\<close> is an immutable linked list whose records only
  hold defined heads (the constructor refuses \<open>undefined\<close>), modelled as a HOL list.
  A JavaScript value that may be \<open>undefined\<close> is a \<open>val option\<close>.
\<close>

datatype val = Num int | Bool bool | Str string | Lst "val list"

datatype error = SyntaxError string | TypeError string | ReferenceError string | Error string

text \<open>
  The integers up to \<open>2 ^ 53\<close> in magnitude: a double holds each of them exactly, and a
  sum, difference or product of two of them that is again among them is computed exactly.
  The model carries no number outside them.
\<close>

definition exact :: "int \<Rightarrow> bool" where
  "exact i = (\<bar>i\<bar> \<le> 9007199254740992)"

fun isNumber :: "val option \<Rightarrow> bool" where
  "isNumber (Some (Num n)) = True"
| "isNumber v = False"

fun isString :: "val option \<Rightarrow> bool" where
  "isString (Some (Str s)) = True"
| "isString v = False"

fun isBoolean :: "val option \<Rightarrow> bool" where
  "isBoolean (Some (Bool b)) = True"
| "isBoolean v = False"

fun isList :: "val option \<Rightarrow> bool" where
  "isList (Some (Lst xs)) = True"
| "isList v = False"

text \<open>\<open>isQuoted\<close>: a string whose first character is the double quote (code 34).\<close>

fun isQuoted :: "val option \<Rightarrow> bool" where
  "isQuoted (Some (Str (c # s))) = (c = CHR 0x22)"
| "isQuoted v = False"

fun isVariable :: "val option \<Rightarrow> bool" where
  "isVariable (Some (Str (c # s))) = (c = CHR '':'')"
| "isVariable v = False"

text \<open>\<open>reOperators\<close> is \<open>/^[-+*\/<>]$/\<close>: one character out of six; \<open>=\<close> is not among them.\<close>

definition reOperators :: "char \<Rightarrow> bool" where
  "reOperators c = (c \<in> set ''-+*/<>'')"

fun isOperator :: "val option \<Rightarrow> bool" where
  "isOperator (Some (Str [c])) = reOperators c"
| "isOperator v = False"

definition isProcedure :: "val option \<Rightarrow> bool" where
  "isProcedure v = (if \<not> isString v then False
                    else if isQuoted v \<or> isVariable v then False else True)"

definition isWord :: "val option \<Rightarrow> bool" where
  "isWord v = (isString v \<or> isNumber v \<or> isBoolean v)"

definition isLiteral :: "val option \<Rightarrow> bool" where
  "isLiteral v = (isList v \<or> isBoolean v \<or> isNumber v \<or> isQuoted v \<or> isVariable v)"

text \<open>The table \<open>precedence\<close>; a key that is absent reads as \<open>undefined\<close>.\<close>

definition precedence :: "string \<Rightarrow> int option" where
  "precedence op =
     (if op = ''*'' then Some 10 else if op = ''/'' then Some 10
      else if op = ''+'' then Some 5 else if op = ''-'' then Some 5
      else if op = ''<'' then Some 1 else if op = ''>'' then Some 1
      else if op = ''='' then Some 1 else None)"

subsection \<open>Stringification\<close>

definition digit_char :: "nat \<Rightarrow> char" where
  "digit_char d = ''0123456789'' ! d"

function string_of_nat :: "nat \<Rightarrow> string" where
  "string_of_nat n =
     (if n < 10 then [digit_char n] else string_of_nat (n div 10) @ [digit_char (n mod 10)])"
  by pat_completeness auto
termination
  by (relation "measure id") auto

declare string_of_nat.simps [simp del]

text \<open>\<open>String(n)\<close> for an integer that the model carries: the sign and all the digits.
  (From \<open>10 ^ 21\<close> on the source prints an exponent; no \<open>exact\<close> number is that large.)\<close>

definition string_of_int :: "int \<Rightarrow> string" where
  "string_of_int i = (if i < 0 then CHR ''-'' # string_of_nat (nat (- i)) else string_of_nat (nat i))"

text \<open>\<open>Array.prototype.join\<close>, and the loop of \<open>List.stringify\<close> that puts the separator
  before every item but the first.\<close>

fun join :: "string \<Rightarrow> string list \<Rightarrow> string" where
  "join sep [] = []"
| "join sep [s] = s"
| "join sep (s # t # ss) = s @ sep @ join sep (t # ss)"

text \<open>
  \<open>List.stringify(val, delimiters)\<close>. The delimiters are handed on to the recursive call
  for every item. The \<open>stack\<close> of the source guards against cyclic lists, which the
  immutable lists of the model cannot be.
\<close>

fun stringify :: "string \<times> string \<Rightarrow> val \<Rightarrow> string" where
  "stringify d (Lst xs) = fst d @ join '' '' (map (stringify d) xs) @ snd d"
| "stringify d (Num n) = string_of_int n"
| "stringify d (Bool b) = (if b then ''true'' else ''false'')"
| "stringify d (Str s) = s"

definition stringify_js :: "string \<times> string \<Rightarrow> val option \<Rightarrow> string" where
  "stringify_js d v = (case v of None \<Rightarrow> ''undefined'' | Some x \<Rightarrow> stringify d x)"

text \<open>\<open>String(val)\<close>: a list prints through \<open>toString\<close>, with the default delimiters.\<close>

definition String :: "val option \<Rightarrow> string" where
  "String v = stringify_js (''['', '']'') v"

text \<open>The message that the builtins \<open>print\<close> and \<open>show\<close> hand to \<open>this.print\<close>.\<close>

definition print_message :: "val option list \<Rightarrow> string" where
  "print_message args = join '' '' (map (stringify_js ('''', '''')) args)"

definition show_message :: "val option list \<Rightarrow> string" where
  "show_message args = join '' '' (map (stringify_js (''['', '']'')) args)"

subsection \<open>The builtins first and item\<close>

definition first :: "val option \<Rightarrow> error + val option" where
  "first arg =
     (case arg of
        Some (Str s) \<Rightarrow>
          (case s of [] \<Rightarrow> Inl (TypeError ''empty string'') | c # cs \<Rightarrow> Inr (Some (Str [c])))
      | Some (Lst xs) \<Rightarrow>
          (case xs of [] \<Rightarrow> Inl (TypeError ''empty list'') | x # t \<Rightarrow> Inr (Some x))
      | _ \<Rightarrow> Inl (TypeError ''must be a string or list''))"

text \<open>\<open>index | 0\<close> on an integer-valued number: the value wrapped into 32 signed bits.\<close>

definition toInt32 :: "int \<Rightarrow> int" where
  "toInt32 i = (i + 2 ^ 31) mod 2 ^ 32 - 2 ^ 31"

text \<open>\<open>thing[index]\<close> on a string: the character at that position counted from 0,
  \<open>undefined\<close> outside.\<close>

definition charAt_js :: "string \<Rightarrow> int \<Rightarrow> val option" where
  "charAt_js s i = (if 0 \<le> i \<and> i < int (length s) then Some (Str [s ! nat i]) else None)"

text \<open>The loop of \<open>item\<close> over a list, with its counter \<open>n\<close> that starts at 1.\<close>

fun item_loop :: "int \<Rightarrow> int \<Rightarrow> val list \<Rightarrow> error + val option" where
  "item_loop n index [] = Inl (TypeError ''index is beyond list length'')"
| "item_loop n index (x # xs) = (if n = index then Inr (Some x) else item_loop (n + 1) index xs)"

definition item :: "val option \<Rightarrow> val option \<Rightarrow> error + val option" where
  "item index thing =
     (case index of
        Some (Num i) \<Rightarrow>
          if i < 0 then Inl (TypeError ''index must be non-negative'')
          else if i \<noteq> toInt32 i then Inl (TypeError ''index must be an integer'')
          else (case thing of
                  Some (Str s) \<Rightarrow>
                    if i > int (length s) then Inl (TypeError ''index is beyond string length'')
                    else Inr (charAt_js s i)
                | Some (Lst xs) \<Rightarrow> item_loop 1 i xs
                | _ \<Rightarrow> Inl (TypeError ''Expected list''))
      | _ \<Rightarrow> Inl (TypeError ''index must be a number''))"

section \<open>Scopes and bindings\<close>

text \<open>
  A \<open>Binding\<close> is a mutable cell; the cells live in a heap, addressed by numbers, and
  \<open>new Binding(val)\<close> takes the next free address. A \<open>Scope\<close> holds its own table from names
  to bindings and looks a name up through the prototype chain of the tables, that is in
  its own table first and then in its parent's. A scope chain is the list of the tables
  from a scope up to the root, the scope's own table first. The scope at position \<open>k\<close> of the
  chain sees the tables from \<open>k\<close> on; the scopes at smaller positions are its descendants.
\<close>

type_synonym addr = nat
type_synonym frame = "string \<rightharpoonup> addr"

record 'v scopes =
  frames :: "frame list"
  cells :: "addr \<Rightarrow> 'v"
  fresh :: addr

fun lookup :: "frame list \<Rightarrow> string \<Rightarrow> addr option" where
  "lookup [] name = None"
| "lookup (f # fs) name = (case f name of Some a \<Rightarrow> Some a | None \<Rightarrow> lookup fs name)"

definition getBinding :: "nat \<Rightarrow> string \<Rightarrow> 'v scopes \<Rightarrow> addr option" where
  "getBinding k name s = lookup (drop k (frames s)) name"

definition get :: "nat \<Rightarrow> string \<Rightarrow> 'v scopes \<Rightarrow> error + 'v" where
  "get k name s =
     (case getBinding k name s of
        Some a \<Rightarrow> Inr (cells s a)
      | None \<Rightarrow> Inl (ReferenceError (''Undeclared variable '' @ name)))"

definition bind :: "nat \<Rightarrow> string \<Rightarrow> addr \<Rightarrow> 'v scopes \<Rightarrow> 'v scopes" where
  "bind k name a s = s\<lparr>frames := (frames s)[k := (frames s ! k)(name \<mapsto> a)]\<rparr>"

definition bindValue :: "nat \<Rightarrow> string \<Rightarrow> 'v \<Rightarrow> 'v scopes \<Rightarrow> 'v scopes" where
  "bindValue k name v s =
     bind k name (fresh s) (s\<lparr>cells := (cells s)(fresh s := v), fresh := Suc (fresh s)\<rparr>)"

text \<open>The root is the scope without a parent: the last position of the chain.\<close>

definition root :: "'v scopes \<Rightarrow> nat" where
  "root s = length (frames s) - 1"

definition set_scope :: "nat \<Rightarrow> string \<Rightarrow> 'v \<Rightarrow> 'v scopes \<Rightarrow> 'v scopes" where
  "set_scope k name v s =
     (case getBinding k name s of
        Some a \<Rightarrow> s\<lparr>cells := (cells s)(a := v)\<rparr>
      | None \<Rightarrow> bindValue (root s) name v s)"

section \<open>The parser\<close>

text \<open>
  \<open>parse(source)\<close> reads the characters of the source through the closures \<open>peek\<close>,
  \<open>prev\<close> and \<open>consume\<close> over the positions \<open>start\<close> and \<open>end\<close>, and appends tokens to a
  \<open>ListBuilder\<close>. The model keeps the builder's list, the stack of suspended builders and
  the two positions in a record. A number token carries the text that the source hands
  to \<open>parseFloat\<close>. The source map, a side table from list records to positions that no
  result depends on, is left out.
\<close>

datatype token = TNum string | TWord string | TList "token list"

record pstate =
  parsed :: "token list"
  stack :: "(token list \<times> nat) list"
  start :: nat
  endp :: nat

definition reWhitespace :: "char \<Rightarrow> bool" where
  "reWhitespace c = (c = CHR '' '' \<or> c = CHR 0x09 \<or> c = CHR 0x0A \<or> c = CHR 0x0D)"

definition reNewline :: "char \<Rightarrow> bool" where
  "reNewline c = (c = CHR 0x0A \<or> c = CHR 0x0D)"

definition reDelimiters :: "char \<Rightarrow> bool" where
  "reDelimiters c = (c \<in> set ''-+*/[]()<>'')"

definition reDigit :: "char \<Rightarrow> bool" where
  "reDigit c = (c \<in> set ''0123456789'')"

text \<open>\<open>source.charAt(i)\<close>: the empty string outside the source, here \<open>None\<close>.\<close>

definition charAt :: "string \<Rightarrow> nat \<Rightarrow> char option" where
  "charAt src i = (if i < length src then Some (src ! i) else None)"

definition peek :: "string \<Rightarrow> pstate \<Rightarrow> char option" where
  "peek src st = charAt src (endp st)"

definition prev :: "string \<Rightarrow> pstate \<Rightarrow> char option" where
  "prev src st = (if endp st = 0 then None else charAt src (endp st - 1))"

definition consume :: "pstate \<Rightarrow> pstate" where
  "consume st = st\<lparr>endp := endp st + 1\<rparr>"

definition record_token :: "token \<Rightarrow> pstate \<Rightarrow> pstate" where
  "record_token v st = st\<lparr>parsed := parsed st @ [v], start := endp st\<rparr>"

definition discard :: "pstate \<Rightarrow> pstate" where
  "discard st = st\<lparr>start := endp st\<rparr>"

definition push :: "pstate \<Rightarrow> pstate" where
  "push st = st\<lparr>stack := (parsed st, start st) # stack st, parsed := []\<rparr>"

text \<open>\<open>pop\<close> destructures \<open>stack.pop()\<close>, which is \<open>undefined\<close> on an empty stack.\<close>

definition pop :: "pstate \<Rightarrow> error + token list \<times> pstate" where
  "pop st =
     (case stack st of
        [] \<Rightarrow> Inl (TypeError ''undefined is not iterable'')
      | (p, s) # rest \<Rightarrow> Inr (parsed st, st\<lparr>parsed := p, start := s, stack := rest\<rparr>))"

function parseComment_loop :: "string \<Rightarrow> pstate \<Rightarrow> pstate" where
  "parseComment_loop src st =
     (case peek src st of
        None \<Rightarrow> discard (consume st)
      | Some c \<Rightarrow> if reNewline c then discard (consume st) else parseComment_loop src (consume st))"
  by pat_completeness auto
termination
  by (relation "measure (\<lambda>(src, st). length src - endp st)")
     (auto simp: consume_def peek_def charAt_def split: if_splits)

declare parseComment_loop.simps [simp del]

definition parseComment :: "string \<Rightarrow> pstate \<Rightarrow> pstate" where
  "parseComment src st = parseComment_loop src (consume st)"

text \<open>The three loops of \<open>parseNumber\<close> that append digits to the token.\<close>

function digits :: "string \<Rightarrow> string \<Rightarrow> pstate \<Rightarrow> string \<times> pstate" where
  "digits src token st =
     (case peek src st of
        None \<Rightarrow> (token, st)
      | Some c \<Rightarrow> if reDigit c then digits src (token @ [c]) (consume st) else (token, st))"
  by pat_completeness auto
termination
  by (relation "measure (\<lambda>(src, token, st). length src - endp st)")
     (auto simp: consume_def peek_def charAt_def split: if_splits)

declare digits.simps [simp del]

definition isTerminator :: "char option \<Rightarrow> bool" where
  "isTerminator ch = (case ch of None \<Rightarrow> True | Some c \<Rightarrow> reDelimiters c \<or> reWhitespace c)"

definition parseExponent :: "string \<Rightarrow> string \<Rightarrow> pstate \<Rightarrow> string \<times> pstate" where
  "parseExponent src token st =
     (if peek src st = Some CHR ''e'' then
        let token = token @ ''e''; st = consume st in
        (case peek src st of
           Some c \<Rightarrow>
             if c = CHR ''-'' \<or> c = CHR ''+'' then digits src (token @ [c]) (consume st)
             else digits src token st
         | None \<Rightarrow> digits src token st)
      else (token, st))"

definition parseFraction :: "string \<Rightarrow> string \<Rightarrow> pstate \<Rightarrow> error + string \<times> pstate" where
  "parseFraction src token st =
     (if peek src st = Some CHR ''.'' then
        let st = consume st; token = token @ ''.'' in
        (case peek src st of
           None \<Rightarrow> Inl (SyntaxError ''Expected decimals'')
         | Some c \<Rightarrow>
             if \<not> reDigit c then Inl (SyntaxError ''Expected decimals'')
             else Inr (digits src (token @ [c]) (consume st)))
      else Inr (token, st))"

definition parseNumber :: "string \<Rightarrow> pstate \<Rightarrow> error + pstate" where
  "parseNumber src st0 =
     (let last = prev src st0;
          token = (case peek src st0 of None \<Rightarrow> [] | Some c \<Rightarrow> [c]);
          st = consume st0
      in if token = ''-'' \<and>
            (\<not> (case last of None \<Rightarrow> True | Some l \<Rightarrow> reWhitespace l)
             \<or> \<not> (case peek src st of None \<Rightarrow> False | Some d \<Rightarrow> reDigit d))
         then Inr (record_token (TWord token) st)
         else
           (case digits src token st of (token, st) \<Rightarrow>
            (case parseFraction src token st of
               Inl e \<Rightarrow> Inl e
             | Inr (token, st) \<Rightarrow>
                 (case parseExponent src token st of (token, st) \<Rightarrow>
                    if isTerminator (peek src st) then Inr (record_token (TNum token) st)
                    else Inr st))))"

function parseWord_loop :: "string \<Rightarrow> string \<Rightarrow> pstate \<Rightarrow> pstate" where
  "parseWord_loop src token st =
     (case peek src st of
        None \<Rightarrow> record_token (TWord token) st
      | Some c \<Rightarrow>
          if reWhitespace c then record_token (TWord token) st
          else if reDelimiters c then
            (if token = [CHR 0x22] \<and> c \<noteq> CHR ''['' \<and> c \<noteq> CHR '']''
             then parseWord_loop src (token @ [c]) (consume st)
             else record_token (TWord token) st)
          else if c = CHR 0x5C then
            (let st = consume st in
             parseWord_loop src (token @ (case peek src st of None \<Rightarrow> [] | Some d \<Rightarrow> [d])) (consume st))
          else parseWord_loop src (token @ [c]) (consume st))"
  by pat_completeness auto
termination
  by (relation "measure (\<lambda>(src, token, st). length src - endp st)")
     (auto simp: consume_def peek_def charAt_def split: if_splits)

declare parseWord_loop.simps [simp del]

definition parseWord :: "string \<Rightarrow> pstate \<Rightarrow> pstate" where
  "parseWord src st = parseWord_loop src [] st"

text \<open>
  \<open>parseList\<close> and \<open>parseMain\<close> call each other, and the loops of \<open>parseList\<close> and of
  \<open>parse\<close> run until the input is used up; nothing in them bounds the number of rounds.
  They take fuel: \<open>None\<close> is a run that has not returned within the fuel.
\<close>

fun parseList_loop :: "nat \<Rightarrow> string \<Rightarrow> pstate \<Rightarrow> (error + pstate) option"
  and parseMain :: "nat \<Rightarrow> string \<Rightarrow> pstate \<Rightarrow> (error + pstate) option" where
  "parseList_loop 0 src st = None"
| "parseList_loop (Suc n) src st =
     (case peek src st of
        None \<Rightarrow> Some (Inl (SyntaxError ''End of input in list''))
      | Some c \<Rightarrow>
          if c = CHR '']'' then
            (case pop (consume st) of
               Inl e \<Rightarrow> Some (Inl e)
             | Inr (sublist, st') \<Rightarrow> Some (Inr (record_token (TList sublist) st')))
          else
            (case parseMain n src st of
               None \<Rightarrow> None
             | Some (Inl e) \<Rightarrow> Some (Inl e)
             | Some (Inr st') \<Rightarrow> parseList_loop n src st'))"
| "parseMain 0 src st = None"
| "parseMain (Suc n) src st =
     (case peek src st of
        None \<Rightarrow> Some (Inl (SyntaxError ''End of input''))
      | Some c \<Rightarrow>
          if c = CHR '';'' then Some (Inr (parseComment src st))
          else if c = CHR ''['' then parseList_loop n src (push (consume st))
          else if reWhitespace c then Some (Inr (discard (consume st)))
          else if reNewline c then Some (Inr (discard (consume st)))
          else if c = CHR ''-'' \<or> reDigit c then Some (parseNumber src st)
          else if c = CHR ''('' \<or> c = CHR '')'' then Some (Inr (record_token (TWord [c]) (consume st)))
          else if reOperators c then Some (Inr (record_token (TWord [c]) (consume st)))
          else Some (Inr (parseWord src st)))"

fun parse_loop :: "nat \<Rightarrow> string \<Rightarrow> pstate \<Rightarrow> (error + token list) option" where
  "parse_loop 0 src st = None"
| "parse_loop (Suc n) src st =
     (case peek src st of
        None \<Rightarrow> Some (Inr (parsed st))
      | Some c \<Rightarrow>
          (case parseMain n src st of
             None \<Rightarrow> None
           | Some (Inl e) \<Rightarrow> Some (Inl e)
           | Some (Inr st') \<Rightarrow> parse_loop n src st'))"

definition parse :: "nat \<Rightarrow> string \<Rightarrow> (error + token list) option" where
  "parse n src = parse_loop n src \<lparr>parsed = [], stack = [], start = 0, endp = 0\<rparr>"

section \<open>The interpreter\<close>

subsection \<open>From tokens to values\<close>

text \<open>
  \<open>parseFloat\<close> on the text of a number token. The model reads the integer literals,
  an optional minus sign and digits, up to \<open>2 ^ 53\<close> in magnitude; a literal with a
  fraction or an exponent, or a greater one, has no value in the model.
\<close>

text \<open>The value of a digit: its position in the row of the ten digits.\<close>

definition digit_value :: "char \<Rightarrow> nat" where
  "digit_value c = length (takeWhile (\<lambda>d. d \<noteq> c) ''0123456789'')"

definition nat_of_digits :: "string \<Rightarrow> nat option" where
  "nat_of_digits ds = (if ds \<noteq> [] \<and> list_all reDigit ds
                       then Some (foldl (\<lambda>a c. 10 * a + digit_value c) 0 ds) else None)"

definition parseFloat :: "string \<Rightarrow> int option" where
  "parseFloat token =
     (case token of
        [] \<Rightarrow> None
      | c # ds \<Rightarrow>
          (case (if c = CHR ''-'' then map_option (\<lambda>n. - int n) (nat_of_digits ds)
                 else map_option int (nat_of_digits token)) of
             None \<Rightarrow> None
           | Some i \<Rightarrow> if exact i then Some i else None))"

fun value_of :: "token \<Rightarrow> val option" where
  "value_of (TNum token) = map_option Num (parseFloat token)"
| "value_of (TWord w) = Some (Str w)"
| "value_of (TList ts) = map_option Lst (those (map value_of ts))"

definition values_of :: "token list \<Rightarrow> val list option" where
  "values_of ts = (case value_of (TList ts) of Some (Lst vs) \<Rightarrow> Some vs | _ \<Rightarrow> None)"

subsection \<open>Procedures, contexts and the interpreter state\<close>

text \<open>
  A function object bound in the procedure scope is a builtin (named by its key in the
  table \<open>builtins\<close>), the function \<open>unaryMinus\<close>, or the closure that \<open>procedure\<close> makes from
  a name, argument names and a body.
\<close>

datatype proc = Builtin string | UnaryMinus | Procedure string "string list" "val list"

record Context =
  "output" :: "val option"
  stop :: bool

text \<open>
  The callbacks \<open>onbreak\<close> and \<open>oncontinue\<close> are closures over the \<open>resolve\<close> and \<open>reject\<close>
  of the promise that made them. Promises are numbered in the order of their making; a
  callback carries the number of its promise and settles that promise only.
\<close>

datatype callback = CancelWait nat | CancelPark nat | Resume nat

datatype promise = Pending | Resolved | Rejected

datatype host_call = Pause | Continue | Break

text \<open>
  The evaluation gives control to the host only where it awaits a timer (\<open>wait\<close>) or a
  parked \<open>checkBreak\<close>. The field \<open>host\<close> holds, for each such suspension in order, the calls
  that the host makes on the interpreter while the evaluation is suspended there. The
  observers \<open>onprint\<close> and \<open>oncall\<close>, when installed, append what they are called with to
  \<open>printed\<close> and \<open>called\<close>; no \<open>onvalue\<close> is installed. The variable scopes on the stack \<open>scopes\<close> form one chain, since every
  scope pushed has the scope on top as its parent: \<open>frames\<close> has the current scope first
  and the global scope last. The stack of contexts is \<open>contexts\<close>, most recent first, above
  \<open>globalContext\<close>. The procedure scope is a single root scope, kept as its table.
\<close>

record interp =
  procedureScope :: "string \<rightharpoonup> proc"
  scopes :: "val option scopes"
  globalContext :: Context
  contexts :: "Context list"
  running :: bool
  breakFlag :: bool
  paused :: bool
  onbreak :: "callback option"
  oncontinue :: "callback option"
  onprint :: bool
  printed :: "string list"
  oncall :: bool
  called :: "(proc \<times> val option list) list"
  promise_id :: nat
  promise :: promise
  host :: "host_call list list"

text \<open>
  The outcome of a call: a value, a thrown error, or \<open>Beyond\<close> where the source computes
  with values that the model does not carry (a number that is not an integer, a coercion
  of JavaScript, the identity of a list record).
\<close>

datatype 'a outcome = Ok 'a | Throw error | Beyond

type_synonym 'a eval = "('a outcome \<times> interp) option"

definition await :: "'a eval \<Rightarrow> ('a \<Rightarrow> interp \<Rightarrow> 'b eval) \<Rightarrow> 'b eval" where
  "await m f =
     (case m of
        None \<Rightarrow> None
      | Some (Ok x, st) \<Rightarrow> f x st
      | Some (Throw e, st) \<Rightarrow> Some (Throw e, st)
      | Some (Beyond, st) \<Rightarrow> Some (Beyond, st))"

definition lift :: "'a outcome \<Rightarrow> interp \<Rightarrow> 'a eval" where
  "lift r st = Some (r, st)"

definition currentContext :: "interp \<Rightarrow> Context" where
  "currentContext st = (case contexts st of [] \<Rightarrow> globalContext st | c # cs \<Rightarrow> c)"

definition update_context :: "(Context \<Rightarrow> Context) \<Rightarrow> interp \<Rightarrow> interp" where
  "update_context f st =
     (case contexts st of
        [] \<Rightarrow> st\<lparr>globalContext := f (globalContext st)\<rparr>
      | c # cs \<Rightarrow> st\<lparr>contexts := f c # cs\<rparr>)"

text \<open>\<open>iter.head\<close>: \<open>undefined\<close> on the empty list, whose tail is the empty list again.\<close>

definition head :: "val list \<Rightarrow> val option" where
  "head iter = (case iter of [] \<Rightarrow> None | x # xs \<Rightarrow> Some x)"

definition tail :: "val list \<Rightarrow> val list" where
  "tail iter = (case iter of [] \<Rightarrow> [] | x # xs \<Rightarrow> xs)"

definition builtin_names :: "string list" where
  "builtin_names =
     [''true'', ''false'', ''and'', ''or'', ''not'',
      ''word'', ''se'', ''list'', ''fput'', ''lput'', ''combine'', ''reverse'', ''count'',
      ''first'', ''last'', ''butfirst'', ''butlast'', ''item'', ''remove'',
      ''print'', ''show'', ''wait'',
      ''thing'', ''make'', ''local'', ''global'', ''push'',
      ''+'', ''-'', ''*'', ''/'', ''<'', ''>'', ''='',
      ''sum'', ''difference'', ''product'', ''quotient'', ''remainder'',
      ''emptyp'', ''equalp'', ''listp'', ''memberp'', ''numberp'', ''wordp'',
      ''stop'', ''output'', ''run'', ''runresult'', ''repeat'', ''forever'', ''if'', ''ifelse'',
      ''apply'', ''invoke'', ''foreach'', ''map'']"

definition aliases :: "(string \<times> string) list" where
  "aliases = [(''op'', ''output''), (''bf'', ''butfirst''), (''bl'', ''butlast'')]"

definition builtins :: "string \<rightharpoonup> proc" where
  "builtins name =
     (if name \<in> set builtin_names then Some (Builtin name)
      else map_option Builtin (map_of aliases name))"

text \<open>\<open>func.length\<close>: the number of parameters before a rest parameter.\<close>

definition arity :: "proc \<Rightarrow> nat" where
  "arity func =
     (case func of
        UnaryMinus \<Rightarrow> 1
      | Procedure name argNames body \<Rightarrow> length argNames
      | Builtin name \<Rightarrow>
          if name \<in> set [''true'', ''false'', ''stop''] then 0
          else if name \<in> set [''not'', ''reverse'', ''count'', ''first'', ''last'', ''butfirst'',
                 ''butlast'', ''print'', ''show'', ''wait'', ''thing'', ''local'', ''global'',
                 ''emptyp'', ''listp'', ''numberp'', ''wordp'', ''output'', ''run'', ''runresult'',
                 ''forever''] then 1
          else if name = ''ifelse'' then 3
          else 2)"

definition func_name :: "proc \<Rightarrow> string" where
  "func_name func =
     (case func of
        UnaryMinus \<Rightarrow> ''unaryMinus''
      | Procedure name argNames body \<Rightarrow> name
      | Builtin name \<Rightarrow> name)"

definition Interpreter :: interp where
  "Interpreter =
     \<lparr>procedureScope = builtins,
      scopes = \<lparr>frames = [Map.empty], cells = (\<lambda>a. None), fresh = 0\<rparr>,
      globalContext = \<lparr>output = None, stop = False\<rparr>,
      contexts = [],
      running = False, breakFlag = False, paused = False,
      onbreak = None, oncontinue = None,
      onprint = False, printed = [],
      oncall = False, called = [],
      promise_id = 0, promise = Resolved,
      host = []\<rparr>"

subsection \<open>The control surface: pause, continue, break\<close>

definition settle :: "nat \<Rightarrow> promise \<Rightarrow> interp \<Rightarrow> interp" where
  "settle k p st = (if k = promise_id st \<and> promise st = Pending then st\<lparr>promise := p\<rparr> else st)"

definition invoke_callback :: "callback \<Rightarrow> interp \<Rightarrow> interp" where
  "invoke_callback cb st =
     (case cb of
        CancelWait k \<Rightarrow> settle k Rejected st
      | CancelPark k \<Rightarrow> settle k Rejected (st\<lparr>oncontinue := None\<rparr>)
      | Resume k \<Rightarrow> settle k Resolved st)"

text \<open>Where a method throws to the host that called it, the interpreter stays as it is.\<close>

definition pause_call :: "interp \<Rightarrow> interp" where
  "pause_call st = (if \<not> running st then st else if paused st then st else st\<lparr>paused := True\<rparr>)"

definition continue_call :: "interp \<Rightarrow> interp" where
  "continue_call st =
     (if \<not> running st then st
      else if \<not> paused st then st
      else let st = st\<lparr>paused := False\<rparr>
           in (case oncontinue st of None \<Rightarrow> st | Some cb \<Rightarrow> invoke_callback cb st))"

definition break_call :: "interp \<Rightarrow> interp" where
  "break_call st =
     (if \<not> running st then st
      else if breakFlag st then st
      else let st = st\<lparr>breakFlag := True\<rparr>;
               st = (case onbreak st of None \<Rightarrow> st | Some cb \<Rightarrow> invoke_callback cb st)
           in if paused st then continue_call st else st)"

definition host_step :: "interp \<Rightarrow> host_call \<Rightarrow> interp" where
  "host_step st c = (case c of Pause \<Rightarrow> pause_call st | Continue \<Rightarrow> continue_call st
                     | Break \<Rightarrow> break_call st)"

text \<open>The evaluation is suspended on promise \<open>promise_id\<close>: the host makes its next calls.\<close>

definition suspend :: "interp \<Rightarrow> interp" where
  "suspend st =
     (case host st of
        [] \<Rightarrow> st
      | calls # rest \<Rightarrow> foldl host_step (st\<lparr>host := rest\<rparr>) calls)"

definition new_promise :: "interp \<Rightarrow> interp" where
  "new_promise st = st\<lparr>promise_id := Suc (promise_id st), promise := Pending\<rparr>"

text \<open>
  \<open>checkBreak\<close>: a promise that is rejected when the break flag is set, that parks the
  evaluation while paused, and that is resolved at once otherwise. A parked promise that
  the host neither resolves nor rejects never settles: \<open>None\<close>.
\<close>

definition checkBreak :: "interp \<Rightarrow> unit eval" where
  "checkBreak st0 =
     (let st = new_promise st0 in
      if breakFlag st then Some (Throw (Error ''Break requested''), st)
      else if paused st then
        (let st = st\<lparr>oncontinue := Some (Resume (promise_id st)),
                       onbreak := Some (CancelPark (promise_id st))\<rparr>;
             st = suspend st
         in case promise st of
              Pending \<Rightarrow> None
            | Resolved \<Rightarrow> Some (Ok (), st)
            | Rejected \<Rightarrow> Some (Throw (Error ''Break requested''), st))
      else Some (Ok (), st\<lparr>promise := Resolved\<rparr>))"

text \<open>
  The builtin \<open>wait\<close>: a timer whose callback clears \<open>onbreak\<close> and resolves, and an
  \<open>onbreak\<close> that clears the timer and rejects. The timer fires after the host's calls
  unless one of them has rejected the promise.
\<close>

definition wait :: "interp \<Rightarrow> val option eval" where
  "wait st0 =
     (let st = new_promise st0;
          st = st\<lparr>onbreak := Some (CancelWait (promise_id st))\<rparr>;
          st = suspend st
      in if promise st = Rejected then Some (Throw (Error ''Break requested''), st)
         else Some (Ok None, st\<lparr>onbreak := None, promise := Resolved\<rparr>))"

subsection \<open>Builtins that neither evaluate a block nor touch the interpreter\<close>

definition of_sum :: "error + 'a \<Rightarrow> 'a outcome" where
  "of_sum r = (case r of Inl e \<Rightarrow> Throw e | Inr x \<Rightarrow> Ok x)"

text \<open>JavaScript's truthiness: \<open>undefined\<close>, \<open>false\<close>, \<open>0\<close> and the empty string are falsy.\<close>

definition truthy :: "val option \<Rightarrow> bool" where
  "truthy v =
     (case v of
        None \<Rightarrow> False
      | Some (Bool b) \<Rightarrow> b
      | Some (Num n) \<Rightarrow> n \<noteq> 0
      | Some (Str s) \<Rightarrow> s \<noteq> []
      | Some (Lst xs) \<Rightarrow> True)"

text \<open>A parameter that the call gives no argument for is \<open>undefined\<close>.\<close>

definition arg :: "val option list \<Rightarrow> nat \<Rightarrow> val option" where
  "arg args i = (if i < length args then args ! i else None)"

text \<open>\<open>new List(head, tail)\<close> with an \<open>undefined\<close> head is the attempt to make a second
  empty list.\<close>

definition new_List :: "val option \<Rightarrow> val list \<Rightarrow> error + val list" where
  "new_List h t =
     (case h of
        None \<Rightarrow> Inl (TypeError ''Only one empty list may be created'')
      | Some x \<Rightarrow> Inr (x # t))"

text \<open>\<open>ListBuilder.push\<close> for every value of an array, as \<open>concat\<close> and \<open>List.from\<close> do.\<close>

fun concat_builder :: "val list \<Rightarrow> val option list \<Rightarrow> error + val list" where
  "concat_builder acc [] = Inr acc"
| "concat_builder acc (v # vs) =
     (case v of
        None \<Rightarrow> Inl (TypeError ''Only one empty list may be created'')
      | Some x \<Rightarrow> concat_builder (acc @ [x]) vs)"

fun se_loop :: "val list \<Rightarrow> val option list \<Rightarrow> error + val list" where
  "se_loop acc [] = Inr acc"
| "se_loop acc (v # vs) =
     (case v of
        Some (Lst xs) \<Rightarrow> se_loop (acc @ xs) vs
      | Some x \<Rightarrow> se_loop (acc @ [x]) vs
      | None \<Rightarrow> Inl (TypeError ''Only one empty list may be created''))"

definition word :: "val option list \<Rightarrow> error + val option" where
  "word args =
     (if list_all isWord args then Inr (Some (Str (concat (map (stringify_js ('''', '''')) args))))
      else Inl (TypeError ''args must be words''))"

definition fput :: "val option \<Rightarrow> val option \<Rightarrow> error + val option" where
  "fput thing lst =
     (case lst of
        Some (Lst xs) \<Rightarrow> map_sum id (\<lambda>l. Some (Lst l)) (new_List thing xs)
      | _ \<Rightarrow> Inl (TypeError ''list must be a list''))"

text \<open>The remainder of JavaScript takes the sign of the dividend.\<close>

definition js_rem :: "int \<Rightarrow> int \<Rightarrow> int" where
  "js_rem a b = sgn a * (\<bar>a\<bar> mod \<bar>b\<bar>)"

text \<open>A numeric result, where it is one of the numbers that the model carries.\<close>

definition number :: "int \<Rightarrow> val option outcome" where
  "number i = (if exact i then Ok (Some (Num i)) else Beyond)"

text \<open>
  The arithmetic and the comparisons on two numbers; on anything else the source follows
  the coercions of JavaScript, which the model does not carry. A quotient that is no
  integer and a division by zero leave the integers.
\<close>

definition arith :: "string \<Rightarrow> val option \<Rightarrow> val option \<Rightarrow> val option outcome" where
  "arith op a b =
     (case (a, b) of
        (Some (Num x), Some (Num y)) \<Rightarrow>
          if \<not> (exact x \<and> exact y) then Beyond
          else if op = ''+'' then number (x + y)
          else if op = ''-'' then number (x - y)
          else if op = ''*'' then number (x * y)
          else if op = ''/'' then (if y \<noteq> 0 \<and> y dvd x then number (x div y) else Beyond)
          else if op = ''%'' then (if y \<noteq> 0 then number (js_rem x y) else Beyond)
          else if op = ''<'' then Ok (Some (Bool (x < y)))
          else if op = ''>'' then Ok (Some (Bool (x > y)))
          else Beyond
      | _ \<Rightarrow> Beyond)"

text \<open>\<open>List.equal\<close>: identity or, on two lists, equality of heads and tails throughout.\<close>

definition List_equal :: "val option \<Rightarrow> val option \<Rightarrow> bool" where
  "List_equal a b = (a = b)"

definition unaryMinus :: "val option \<Rightarrow> val option outcome" where
  "unaryMinus a = (case a of Some (Num x) \<Rightarrow> number (- x) | _ \<Rightarrow> Beyond)"

definition call_pure :: "string \<Rightarrow> val option list \<Rightarrow> val option outcome" where
  "call_pure name args =
     (let a = arg args 0; b = arg args 1 in
      if name = ''true'' then Ok (Some (Bool True))
      else if name = ''false'' then Ok (Some (Bool False))
      else if name = ''and'' then Ok (Some (Bool (list_all truthy (a # b # drop 2 args))))
      else if name = ''or'' then Ok (Some (Bool (list_ex truthy (a # b # drop 2 args))))
      else if name = ''not'' then Ok (Some (Bool (\<not> truthy a)))
      else if name = ''word'' then of_sum (word (a # b # drop 2 args))
      else if name = ''se'' then of_sum (map_sum id (\<lambda>l. Some (Lst l)) (se_loop [] (a # b # drop 2 args)))
      else if name = ''list'' then
        of_sum (case concat_builder [] (drop 2 args) of
                  Inl e \<Rightarrow> Inl e
                | Inr r \<Rightarrow> (case new_List b r of
                              Inl e \<Rightarrow> Inl e
                            | Inr t \<Rightarrow> map_sum id (\<lambda>l. Some (Lst l)) (new_List a t)))
      else if name = ''fput'' then of_sum (fput a b)
      else if name = ''lput'' then
        (case b of
           Some (Lst xs) \<Rightarrow> of_sum (map_sum id (\<lambda>l. Some (Lst l)) (concat_builder xs [a]))
         | _ \<Rightarrow> Throw (TypeError ''list must be a list''))
      else if name = ''combine'' then
        (if isString b then of_sum (word [a, b])
         else if isList b then of_sum (fput a b)
         else Throw (TypeError ''second arg must be string or list''))
      else if name = ''reverse'' then
        (case a of Some (Lst xs) \<Rightarrow> Ok (Some (Lst (rev xs)))
         | _ \<Rightarrow> Throw (TypeError ''list must be a list''))
      else if name = ''count'' then
        (case a of
           Some (Lst xs) \<Rightarrow> Ok (Some (Num (int (length xs))))
         | Some (Str s) \<Rightarrow> Ok (Some (Num (int (length s))))
         | _ \<Rightarrow> Throw (TypeError ''arg must be a word or list''))
      else if name = ''first'' then of_sum (first a)
      else if name = ''last'' then
        (case a of
           Some (Str s) \<Rightarrow> if s = [] then Throw (TypeError ''empty string'') else Ok (Some (Str [last s]))
         | Some (Lst xs) \<Rightarrow> if xs = [] then Throw (TypeError ''empty list'') else Ok (Some (last xs))
         | _ \<Rightarrow> Throw (TypeError ''must be a string or list''))
      else if name = ''butfirst'' then
        (case a of
           Some (Str s) \<Rightarrow> if s = [] then Throw (TypeError ''empty string'') else Ok (Some (Str (tl s)))
         | Some (Lst xs) \<Rightarrow> if xs = [] then Throw (TypeError ''empty list'') else Ok (Some (Lst (tl xs)))
         | _ \<Rightarrow> Throw (TypeError ''must be a string or list''))
      else if name = ''butlast'' then
        (case a of
           Some (Str s) \<Rightarrow> if s = [] then Throw (TypeError ''empty string'') else Ok (Some (Str []))
         | Some (Lst xs) \<Rightarrow> if xs = [] then Throw (TypeError ''empty list'') else Ok (Some (Lst (butlast xs)))
         | _ \<Rightarrow> Throw (TypeError ''butlast requires a list or string''))
      else if name = ''item'' then of_sum (item a b)
      else if name = ''remove'' then
        (case b of
           Some (Lst xs) \<Rightarrow>
             if isList a \<and> list_ex (\<lambda>x. isList (Some x)) xs then Beyond
             else Ok (Some (Lst (filter (\<lambda>x. a \<noteq> Some x) xs)))
         | _ \<Rightarrow> Throw (TypeError ''list.filter is not a function''))
      else if name \<in> set [''+'', ''-'', ''*'', ''/'', ''<'', ''>''] then arith name a b
      else if name = ''='' then Ok (Some (Bool (List_equal a b)))
      else if name = ''sum'' then arith ''+'' a b
      else if name = ''difference'' then arith ''-'' a b
      else if name = ''product'' then arith ''*'' a b
      else if name = ''quotient'' then arith ''/'' a b
      else if name = ''remainder'' then arith ''%'' a b
      else if name = ''emptyp'' then
        (case a of
           Some (Lst xs) \<Rightarrow> Ok (Some (Bool (xs = [])))
         | Some (Str s) \<Rightarrow> Ok (Some (Bool (s = [])))
         | _ \<Rightarrow> Ok (Some (Bool False)))
      else if name = ''equalp'' then Ok (Some (Bool (List_equal a b)))
      else if name = ''listp'' then Ok (Some (Bool (isList a)))
      else if name = ''memberp'' then
        (if \<not> isList b then Throw (TypeError ''list must be a list'')
         else Ok (Some (Bool (list_ex (\<lambda>key. List_equal a (Some (Str key))) [''head'', ''tail'']))))
      else if name = ''numberp'' then Ok (Some (Bool (isNumber a)))
      else if name = ''wordp'' then Ok (Some (Bool (isWord a)))
      else Beyond)"

subsection \<open>Builtins on variables, contexts and output\<close>

definition currentScope :: nat where
  "currentScope = 0"

definition thing :: "val option \<Rightarrow> interp \<Rightarrow> val option eval" where
  "thing name st =
     (case name of
        Some (Str n) \<Rightarrow>
          (case getBinding currentScope n (scopes st) of
             None \<Rightarrow> Some (Throw (ReferenceError (''Undefined variable '' @ n)), st)
           | Some a \<Rightarrow> Some (Ok (cells (scopes st) a), st))
      | _ \<Rightarrow> Some (Throw (TypeError ''Invalid variable name''), st))"

definition make :: "val option \<Rightarrow> val option \<Rightarrow> interp \<Rightarrow> val option eval" where
  "make name v st =
     (case name of
        Some (Str n) \<Rightarrow> Some (Ok None, st\<lparr>scopes := set_scope currentScope n v (scopes st)\<rparr>)
      | _ \<Rightarrow> Some (Throw (TypeError ''Invalid variable name''), st))"

text \<open>The names that \<open>local\<close> and \<open>global\<close> collect into the array \<open>all\<close>.\<close>

definition all_names :: "val option list \<Rightarrow> val option list" where
  "all_names args =
     (case arg args 0 of
        Some (Lst xs) \<Rightarrow> map Some xs
      | name \<Rightarrow> [name]) @ drop 1 args"

fun local_loop :: "val option list \<Rightarrow> interp \<Rightarrow> val option eval" where
  "local_loop [] st = Some (Ok None, st)"
| "local_loop (n # ns) st =
     (case n of
        Some (Str name) \<Rightarrow>
          local_loop ns (st\<lparr>scopes := bindValue currentScope name None (scopes st)\<rparr>)
      | _ \<Rightarrow> Some (Throw (TypeError ''Invalid variable name''), st))"

fun global_loop :: "val option list \<Rightarrow> interp \<Rightarrow> val option eval" where
  "global_loop [] st = Some (Ok None, st)"
| "global_loop (n # ns) st =
     (case n of
        Some (Str name) \<Rightarrow>
          (let sc = scopes st in
           case getBinding (root sc) name sc of
             Some a \<Rightarrow> global_loop ns (st\<lparr>scopes := bind currentScope name a sc\<rparr>)
           | None \<Rightarrow>
               global_loop ns
                 (st\<lparr>scopes := bind currentScope name (fresh sc) (bindValue (root sc) name None sc)\<rparr>))
      | _ \<Rightarrow> Some (Throw (TypeError ''Invalid variable name''), st))"

text \<open>
  \<open>push\<close> reads the variable, makes the longer list and calls \<open>scope.set(list)\<close>: the list
  is taken for the name, through its string as property key, and the value is \<open>undefined\<close>.
\<close>

definition push_builtin :: "val option \<Rightarrow> val option \<Rightarrow> interp \<Rightarrow> val option eval" where
  "push_builtin name v st =
     (case get currentScope (stringify_js (''['', '']'') name) (scopes st) of
        Inl e \<Rightarrow> Some (Throw e, st)
      | Inr lst \<Rightarrow>
          (case lst of
             Some (Lst xs) \<Rightarrow>
               (case new_List v xs of
                  Inl e \<Rightarrow> Some (Throw e, st)
                | Inr l \<Rightarrow>
                    Some (Ok None,
                      st\<lparr>scopes := set_scope currentScope (String (Some (Lst l))) None (scopes st)\<rparr>))
           | _ \<Rightarrow> Some (Throw (TypeError (String name @ '' is not a list'')), st)))"

definition stop_builtin :: "interp \<Rightarrow> val option eval" where
  "stop_builtin st =
     (if contexts st = [] then Some (Throw (SyntaxError ''stop is not allowed at top level''), st)
      else Some (Ok None, update_context (\<lambda>c. c\<lparr>stop := True\<rparr>) st))"

definition output_builtin :: "val option \<Rightarrow> interp \<Rightarrow> val option eval" where
  "output_builtin a st =
     (if contexts st = [] then Some (Throw (SyntaxError ''output is not allowed at top level''), st)
      else Some (Ok None, update_context (\<lambda>c. c\<lparr>stop := True, output := a\<rparr>) st))"

text \<open>\<open>Interpreter.print\<close>: without an \<open>onprint\<close> it reads \<open>this.console\<close>, which nothing sets.\<close>

definition print :: "string \<Rightarrow> interp \<Rightarrow> val option eval" where
  "print str st =
     (if onprint st then Some (Ok None, st\<lparr>printed := printed st @ [str]\<rparr>)
      else Some (Throw (TypeError ''Cannot read properties of undefined (reading log)''), st))"

definition call_state :: "string \<Rightarrow> val option list \<Rightarrow> interp \<Rightarrow> val option eval" where
  "call_state name args st =
     (if name = ''print'' then print (print_message (arg args 0 # drop 1 args)) st
      else if name = ''show'' then print (show_message (arg args 0 # drop 1 args)) st
      else if name = ''wait'' then wait st
      else if name = ''thing'' then thing (arg args 0) st
      else if name = ''make'' then make (arg args 0) (arg args 1) st
      else if name = ''local'' then local_loop (all_names args) st
      else if name = ''global'' then global_loop (all_names args) st
      else if name = ''push'' then push_builtin (arg args 0) (arg args 1) st
      else if name = ''stop'' then stop_builtin st
      else if name = ''output'' then output_builtin (arg args 0) st
      else lift (call_pure name args) st)"

subsection \<open>The evaluator\<close>

definition try_finally :: "'a eval \<Rightarrow> (interp \<Rightarrow> interp) \<Rightarrow> 'a eval" where
  "try_finally m f = (case m of None \<Rightarrow> None | Some (r, st) \<Rightarrow> Some (r, f st))"

definition validateCommand :: "val option \<Rightarrow> bool \<Rightarrow> interp \<Rightarrow> error + proc" where
  "validateCommand command binary st =
     (if \<not> binary \<and> command = Some (Str ''-'') then Inr UnaryMinus
      else case command of
             Some (Str name) \<Rightarrow>
               (case procedureScope st name of
                  None \<Rightarrow> Inl (TypeError (''Unbound function: '' @ name))
                | Some func \<Rightarrow> Inr func)
           | _ \<Rightarrow> Inl (SyntaxError (''Invalid command word: '' @ String command)))"

text \<open>
  \<open>handleLiteral\<close> reads a variable through \<open>scope\<close>, the scope that was current when
  \<open>evaluate\<close> was entered. That scope is on top of the stack again whenever a handler of
  this \<open>evaluate\<close> runs, since every call pops what it has pushed; and so is \<open>context\<close>.
\<close>

definition handleLiteral :: "val list \<Rightarrow> interp \<Rightarrow> error + val option \<times> val list" where
  "handleLiteral iter st =
     (let v = head iter; iter = tail iter in
      case v of
        Some (Str s) \<Rightarrow>
          (case s of
             [] \<Rightarrow> Inl (SyntaxError (''Unexpected token '' @ s))
           | c # rest \<Rightarrow>
               if c = CHR 0x22 then Inr (Some (Str rest), iter)
               else if c = CHR '':'' then
                 (case get currentScope rest (scopes st) of
                    Inl e \<Rightarrow> Inl e
                  | Inr x \<Rightarrow> Inr (x, iter))
               else Inl (SyntaxError (''Unexpected token '' @ s)))
      | Some x \<Rightarrow> Inr (Some x, iter)
      | None \<Rightarrow> Inl (SyntaxError ''Unexpected token undefined''))"

text \<open>The two loops of \<open>handleTo\<close>: the argument names, then the body up to \<open>end\<close>.\<close>

fun collect_args :: "string list \<Rightarrow> val list \<Rightarrow> error + string list \<times> val list" where
  "collect_args args [] = Inl (SyntaxError ''End of input reading procedure definition'')"
| "collect_args args (a # iter) =
     (if isVariable (Some a)
      then (case a of Str s \<Rightarrow> collect_args (args @ [tl s]) iter | _ \<Rightarrow> Inr (args, a # iter))
      else Inr (args, a # iter))"

fun collect_body :: "val list \<Rightarrow> val list \<Rightarrow> error + val list \<times> val list" where
  "collect_body body [] = Inl (SyntaxError ''End of input reading procedure definition'')"
| "collect_body body (instruction # iter) =
     (if instruction = Str ''end'' then Inr (body, iter)
      else collect_body (body @ [instruction]) iter)"

definition handleTo :: "val list \<Rightarrow> interp \<Rightarrow> error + val list \<times> interp" where
  "handleTo iter0 st =
     (let iter = tail iter0 in
      case iter of
        [] \<Rightarrow> Inl (SyntaxError ''End of input expecting procedure name'')
      | name # iter \<Rightarrow>
          (case name of
             Str funcName \<Rightarrow>
               (case collect_args [] iter of
                  Inl e \<Rightarrow> Inl e
                | Inr (args, iter) \<Rightarrow>
                    (case collect_body [] iter of
                       Inl e \<Rightarrow> Inl e
                     | Inr (body, iter) \<Rightarrow>
                         Inr (iter, st\<lparr>procedureScope :=
                                (procedureScope st)(funcName \<mapsto> Procedure funcName args body)\<rparr>)))
           | _ \<Rightarrow> Inl (SyntaxError ''Procedure name must be a word'')))"

text \<open>A new scope below the current one, and the way back.\<close>

definition push_scope :: "interp \<Rightarrow> interp" where
  "push_scope st = st\<lparr>scopes := (scopes st)\<lparr>frames := Map.empty # frames (scopes st)\<rparr>\<rparr>"

definition pop_scope :: "interp \<Rightarrow> interp" where
  "pop_scope st = st\<lparr>scopes := (scopes st)\<lparr>frames := tl (frames (scopes st))\<rparr>\<rparr>"

text \<open>The closure of \<open>procedure\<close> binds \<open>args[index]\<close> to each argument name in turn.\<close>

fun bind_args :: "string list \<Rightarrow> nat \<Rightarrow> val option list \<Rightarrow> interp \<Rightarrow> interp" where
  "bind_args [] index args st = st"
| "bind_args (name # names) index args st =
     bind_args names (Suc index) args
       (st\<lparr>scopes := bindValue currentScope name (arg args index) (scopes st)\<rparr>)"

text \<open>The names of a template are any values; a value that is no string names the
  variable through its string.\<close>

fun bind_names :: "val list \<Rightarrow> nat \<Rightarrow> val option list \<Rightarrow> interp \<Rightarrow> error + interp" where
  "bind_names [] n args st = Inr st"
| "bind_names (name # names) n args st =
     (if n > length args then Inl (ReferenceError ''Not enough arguments given to template'')
      else bind_names names (Suc n) args
             (st\<lparr>scopes := bindValue currentScope (String (Some name)) (arg args n) (scopes st)\<rparr>))"

text \<open>What \<open>source[Symbol.iterator]()\<close> yields, and what \<open>Array.from\<close> makes of a value.\<close>

definition iterate :: "val option \<Rightarrow> error + val list" where
  "iterate source =
     (case source of
        Some (Lst xs) \<Rightarrow> Inr xs
      | Some (Str s) \<Rightarrow> Inr (map (\<lambda>c. Str [c]) s)
      | _ \<Rightarrow> Inl (TypeError ''source[Symbol.iterator] is not a function''))"

definition Array_from :: "val option \<Rightarrow> error + val option list" where
  "Array_from source =
     (case source of
        Some (Lst xs) \<Rightarrow> Inr (map Some xs)
      | Some (Str s) \<Rightarrow> Inr (map (\<lambda>c. Some (Str [c])) s)
      | None \<Rightarrow> Inl (TypeError ''undefined is not iterable'')
      | _ \<Rightarrow> Inr [])"

fun doMap_sources :: "val option list \<Rightarrow> val option \<Rightarrow> val option list
    \<Rightarrow> val option list \<times> val option" where
  "doMap_sources sources template [] = (sources, template)"
| "doMap_sources sources template (r # rest) = doMap_sources (sources @ [template]) r rest"

fun iterators :: "val option list \<Rightarrow> error + val list list" where
  "iterators [] = Inr []"
| "iterators (source # sources) =
     (case iterate source of
        Inl e \<Rightarrow> Inl e
      | Inr it \<Rightarrow> (case iterators sources of Inl e \<Rightarrow> Inl e | Inr its \<Rightarrow> Inr (it # its)))"

text \<open>
  The handlers of \<open>evaluate\<close>, \<open>performCall\<close>, the procedures and the builtins that
  evaluate blocks or run templates call each other, and a Logo program may run forever.
  A call among them is a \<open>request\<close>; every function below takes as \<open>rec\<close> the interpreter
  that serves its requests, and \<open>run\<close> gives each call one unit of fuel less than its
  caller has. \<open>None\<close> is an evaluation that has not returned within the fuel, or that
  stays parked. The handlers share the cursor \<open>iter\<close> of their \<open>evaluate\<close>: they take it and
  answer with their value and the cursor; the other functions answer with a value and
  the empty cursor.
\<close>

datatype request =
    Evaluate "val option"
  | Evaluate_loop "val list" "val option"
  | HandleArg int "val list"
  | HandleOperator "val option" int "val list"
  | HandleVariadic "val list"
  | HandleVariadic_loop "proc option" "val option" "val option" "val option list" "val list"
  | HandleFixed "val list"
  | HandleFixed_loop proc "val option list" "val list"
  | PerformCall proc "val option list"
  | Apply proc "val option list"
  | Repeat_loop int int "val option"
  | Forever_loop "val option"
  | DoMap_loop "val list list" "val option" bool "val list"
  | RunTemplate "val option" "val option list"

type_synonym answer = "val option \<times> val list"
type_synonym recur = "request \<Rightarrow> interp \<Rightarrow> answer eval"

definition return :: "val option \<Rightarrow> interp \<Rightarrow> answer eval" where
  "return v st = Some (Ok (v, []), st)"

definition throw :: "error \<Rightarrow> interp \<Rightarrow> answer eval" where
  "throw e st = Some (Throw e, st)"

definition evaluate :: "recur \<Rightarrow> val option \<Rightarrow> interp \<Rightarrow> answer eval" where
  "evaluate rec body st =
     (if stop (currentContext st) then return None st
      else case body of
             Some (Lst iter) \<Rightarrow> rec (Evaluate_loop iter None) st
           | _ \<Rightarrow> throw (TypeError ''iter.isEmpty is not a function'') st)"

definition evaluate_loop :: "recur \<Rightarrow> val list \<Rightarrow> val option \<Rightarrow> interp \<Rightarrow> answer eval" where
  "evaluate_loop rec iter retval st =
     (if stop (currentContext st) then return retval st
      else if retval \<noteq> None then
        (if iter = [] then return retval st
         else throw (SyntaxError
                (''Extra instructions after a value-returning expression: '' @ String (head iter))) st)
      else if iter = [] then return retval st
      else if head iter = Some (Str ''to'') then
        (case handleTo iter st of
           Inl e \<Rightarrow> throw e st
         | Inr (iter, st) \<Rightarrow> rec (Evaluate_loop iter retval) st)
      else await (rec (HandleArg 0 iter) st) (\<lambda>(retval, iter) st. rec (Evaluate_loop iter retval) st))"

definition handleArg :: "recur \<Rightarrow> int \<Rightarrow> val list \<Rightarrow> interp \<Rightarrow> answer eval" where
  "handleArg rec prio iter st =
     await (if head iter = Some (Str ''('') then rec (HandleVariadic iter) st
            else if isLiteral (head iter) then lift (of_sum (handleLiteral iter st)) st
            else rec (HandleFixed iter) st)
       (\<lambda>(retval, iter) st.
          if isOperator (head iter) then rec (HandleOperator retval prio iter) st
          else Some (Ok (retval, iter), st))"

text \<open>\<open>precedence[iter.head]\<close> where \<open>iter.head\<close> is an operator, which the table holds.\<close>

definition precedence_of :: "val option \<Rightarrow> int outcome" where
  "precedence_of v =
     (case v of
        Some (Str op) \<Rightarrow> (case precedence op of Some prio \<Rightarrow> Ok prio | None \<Rightarrow> Beyond)
      | _ \<Rightarrow> Beyond)"

definition handleOperator :: "recur \<Rightarrow> val option \<Rightarrow> int \<Rightarrow> val list \<Rightarrow> interp \<Rightarrow> answer eval" where
  "handleOperator rec leftValue oldprio iter st =
     await (lift (precedence_of (head iter)) st) (\<lambda>prio st.
       if prio < oldprio then Some (Ok (leftValue, iter), st)
       else
         (case validateCommand (head iter) True st of
            Inl e \<Rightarrow> throw e st
          | Inr func \<Rightarrow>
              await (rec (HandleArg prio (tail iter)) st) (\<lambda>(rightValue, iter) st.
              await (if isOperator (head iter) then
                       await (lift (precedence_of (head iter)) st) (\<lambda>newprio st.
                         if newprio \<ge> prio then rec (HandleOperator rightValue newprio iter) st
                         else Some (Ok (rightValue, iter), st))
                     else Some (Ok (rightValue, iter), st)) (\<lambda>(rightValue, iter) st.
              await (rec (PerformCall func [leftValue, rightValue]) st) (\<lambda>(retval, u) st.
                if isOperator (head iter) then
                  await (lift (precedence_of (head iter)) st) (\<lambda>newprio st.
                    rec (HandleOperator retval newprio iter) st)
                else Some (Ok (retval, iter), st))))))"

definition handleVariadic :: "recur \<Rightarrow> val list \<Rightarrow> interp \<Rightarrow> answer eval" where
  "handleVariadic rec iter0 st =
     (let iter = tail iter0 in
      if iter = [] then throw (SyntaxError ''End of input expecting variadic command'') st
      else let command = head iter in
        if isProcedure command then
          (case validateCommand command False st of
             Inl e \<Rightarrow> throw e st
           | Inr func \<Rightarrow> rec (HandleVariadic_loop (Some func) command None [] (tail iter)) st)
        else await (rec (HandleArg 0 iter) st) (\<lambda>(literal, iter) st.
               rec (HandleVariadic_loop None command literal [] iter) st))"

definition handleVariadic_loop :: "recur \<Rightarrow> proc option \<Rightarrow> val option \<Rightarrow> val option
    \<Rightarrow> val option list \<Rightarrow> val list \<Rightarrow> interp \<Rightarrow> answer eval" where
  "handleVariadic_loop rec func command literal args iter st =
     (if stop (currentContext st) then Some (Ok (None, iter), st)
      else if iter = [] then throw (SyntaxError ''End of input expecting variadic arg'') st
      else if head iter = Some (Str '')'') then
        (case func of
           Some f \<Rightarrow>
             if length args < arity f
             then throw (SyntaxError (''Not enough args to '' @ String command)) st
             else await (rec (PerformCall f args) st) (\<lambda>(retval, u) st.
                    Some (Ok (retval, tail iter), st))
         | None \<Rightarrow>
             if args \<noteq> [] then throw (SyntaxError ''Got unexpected args to a literal'') st
             else Some (Ok (literal, tail iter), st))
      else await (rec (HandleArg 0 iter) st) (\<lambda>(retval, iter) st.
             if retval = None
             then throw (SyntaxError (''Expected output from arg to '' @ String command)) st
             else rec (HandleVariadic_loop func command literal (args @ [retval]) iter) st))"

definition handleFixed :: "recur \<Rightarrow> val list \<Rightarrow> interp \<Rightarrow> answer eval" where
  "handleFixed rec iter st =
     (let command = head iter in
      if command = Some (Str '')'') then throw (SyntaxError ''Unexpected close paren'') st
      else case validateCommand command False st of
             Inl e \<Rightarrow> throw e st
           | Inr func \<Rightarrow> rec (HandleFixed_loop func [] (tail iter)) st)"

definition handleFixed_loop :: "recur \<Rightarrow> proc \<Rightarrow> val option list \<Rightarrow> val list \<Rightarrow> interp
    \<Rightarrow> answer eval" where
  "handleFixed_loop rec func args iter st =
     (if stop (currentContext st) then Some (Ok (None, iter), st)
      else if length args \<ge> arity func then
        await (rec (PerformCall func args) st) (\<lambda>(retval, u) st. Some (Ok (retval, iter), st))
      else if iter = [] then throw (SyntaxError ''End of input expecting fixed arg'') st
      else if head iter = Some (Str '')'') then throw (SyntaxError ''Unexpected close paren'') st
      else await (rec (HandleArg 0 iter) st) (\<lambda>(retval, iter) st.
             if retval = None
             then throw (SyntaxError (''Expected output from arg to '' @ func_name func)) st
             else rec (HandleFixed_loop func (args @ [retval]) iter) st))"

definition performCall :: "recur \<Rightarrow> proc \<Rightarrow> val option list \<Rightarrow> interp \<Rightarrow> answer eval" where
  "performCall rec func args st =
     await (checkBreak st) (\<lambda>u st.
       rec (Apply func args) (if oncall st then st\<lparr>called := called st @ [(func, args)]\<rparr> else st))"

text \<open>The closure that \<open>procedure\<close> returns, called with \<open>args\<close>.\<close>

definition procedure :: "recur \<Rightarrow> string list \<Rightarrow> val list \<Rightarrow> val option list \<Rightarrow> interp
    \<Rightarrow> answer eval" where
  "procedure rec argNames body args st0 =
     (let st = bind_args argNames 0 args (push_scope st0);
          st = st\<lparr>contexts := \<lparr>output = None, stop = False\<rparr> # contexts st\<rparr>
      in case rec (Evaluate (Some (Lst body))) st of
           None \<Rightarrow> None
         | Some (r, st) \<Rightarrow>
             (let out = output (currentContext st);
                  st = pop_scope (st\<lparr>contexts := tl (contexts st)\<rparr>)
              in case r of
                   Ok v \<Rightarrow> return out st
                 | Throw e \<Rightarrow> throw e st
                 | Beyond \<Rightarrow> Some (Beyond, st)))"

definition run_builtin :: "recur \<Rightarrow> val option \<Rightarrow> interp \<Rightarrow> answer eval" where
  "run_builtin rec block st =
     (if \<not> isList block then throw (TypeError ''block must be a list'') st
      else rec (Evaluate block) st)"

definition runresult :: "recur \<Rightarrow> val option \<Rightarrow> interp \<Rightarrow> answer eval" where
  "runresult rec block st =
     (if \<not> isList block then throw (TypeError ''block must be a list'') st
      else await (rec (Evaluate block) st) (\<lambda>(result, u) st.
             case result of
               None \<Rightarrow> return (Some (Lst [])) st
             | Some v \<Rightarrow> return (Some (Lst [v])) st))"

definition repeat :: "recur \<Rightarrow> val option \<Rightarrow> val option \<Rightarrow> interp \<Rightarrow> answer eval" where
  "repeat rec ntimes block st =
     (case ntimes of
        Some (Num k) \<Rightarrow>
          if \<not> isList block then throw (TypeError ''block must be a list'') st
          else rec (Repeat_loop 0 k block) st
      | _ \<Rightarrow> throw (TypeError ''times must be a number'') st)"

definition repeat_loop :: "recur \<Rightarrow> int \<Rightarrow> int \<Rightarrow> val option \<Rightarrow> interp \<Rightarrow> answer eval" where
  "repeat_loop rec i ntimes block st =
     (if i < ntimes then
        await (rec (Evaluate block) st) (\<lambda>r st.
          if stop (currentContext st) then return None st
          else rec (Repeat_loop (i + 1) ntimes block) st)
      else return None st)"

definition forever_loop :: "recur \<Rightarrow> val option \<Rightarrow> interp \<Rightarrow> answer eval" where
  "forever_loop rec block st =
     await (rec (Evaluate block) st) (\<lambda>r st.
       if stop (currentContext st) then return None st
       else rec (Forever_loop block) st)"

definition if_builtin :: "recur \<Rightarrow> val option \<Rightarrow> val option \<Rightarrow> interp \<Rightarrow> answer eval" where
  "if_builtin rec cond block st =
     (if truthy cond then rec (Evaluate block) st else return None st)"

text \<open>Both branches of \<open>ifelse\<close> read the variable \<open>block\<close>, which is declared nowhere.\<close>

definition ifelse :: "val option \<Rightarrow> val option \<Rightarrow> val option \<Rightarrow> interp \<Rightarrow> answer eval" where
  "ifelse cond thenBlock elseBlock st = throw (ReferenceError ''block is not defined'') st"

definition doMap :: "recur \<Rightarrow> val option \<Rightarrow> val option \<Rightarrow> val option list \<Rightarrow> bool \<Rightarrow> interp
    \<Rightarrow> answer eval" where
  "doMap rec data template rest collect st =
     (case doMap_sources [data] template rest of (sources, template) \<Rightarrow>
        (case iterators sources of
           Inl e \<Rightarrow> throw e st
         | Inr iters \<Rightarrow> rec (DoMap_loop iters template collect []) st))"

text \<open>
  The loop of \<open>doMap\<close>: it stops when any source is used up. The callback of \<open>map\<close> pushes
  the value on its builder; \<open>collect\<close> says that there is one.
\<close>

definition doMap_loop :: "recur \<Rightarrow> val list list \<Rightarrow> val option \<Rightarrow> bool \<Rightarrow> val list \<Rightarrow> interp
    \<Rightarrow> answer eval" where
  "doMap_loop rec iters template collect acc st =
     (if list_ex (\<lambda>it. it = []) iters then return (Some (Lst acc)) st
      else await (rec (RunTemplate template (map head iters)) st) (\<lambda>(v, u) st.
             if collect then
               (case v of
                  None \<Rightarrow> throw (TypeError ''Only one empty list may be created'') st
                | Some x \<Rightarrow> rec (DoMap_loop (map tail iters) template collect (acc @ [x])) st)
             else rec (DoMap_loop (map tail iters) template collect acc) st))"

definition runTemplate :: "recur \<Rightarrow> val option \<Rightarrow> val option list \<Rightarrow> interp \<Rightarrow> answer eval" where
  "runTemplate rec template args st =
     (case template of
        Some (Str name) \<Rightarrow>
          (case procedureScope st name of
             None \<Rightarrow> throw (ReferenceError (''Unbound template command '' @ name)) st
           | Some func \<Rightarrow> rec (PerformCall func args) st)
      | Some (Lst xs) \<Rightarrow>
          (case xs of
             [] \<Rightarrow> return None st
           | h # body \<Rightarrow>
               (case h of
                  Lst names \<Rightarrow>
                    (case bind_names names 0 args (push_scope st) of
                       Inl e \<Rightarrow> throw e st
                     | Inr st' \<Rightarrow> try_finally (rec (Evaluate (Some (Lst body))) st') pop_scope)
                | _ \<Rightarrow> throw (TypeError ''Template must have arguments'') st))
      | _ \<Rightarrow> throw (TypeError ''Template must be command or list'') st)"

text \<open>\<open>func.apply(this, args)\<close>.\<close>

definition apply_func :: "recur \<Rightarrow> proc \<Rightarrow> val option list \<Rightarrow> interp \<Rightarrow> answer eval" where
  "apply_func rec func args st =
     (case func of
        UnaryMinus \<Rightarrow> await (lift (unaryMinus (arg args 0)) st) return
      | Procedure funcName argNames body \<Rightarrow> procedure rec argNames body args st
      | Builtin name \<Rightarrow>
          if name = ''run'' then run_builtin rec (arg args 0) st
          else if name = ''runresult'' then runresult rec (arg args 0) st
          else if name = ''repeat'' then repeat rec (arg args 0) (arg args 1) st
          else if name = ''forever'' then rec (Forever_loop (arg args 0)) st
          else if name = ''if'' then if_builtin rec (arg args 0) (arg args 1) st
          else if name = ''ifelse'' then ifelse (arg args 0) (arg args 1) (arg args 2) st
          else if name = ''apply'' then
            (case Array_from (arg args 1) of
               Inl e \<Rightarrow> throw e st
             | Inr inputs \<Rightarrow> rec (RunTemplate (arg args 0) inputs) st)
          else if name = ''invoke'' then rec (RunTemplate (arg args 0) (arg args 1 # drop 2 args)) st
          else if name = ''foreach'' then
            await (doMap rec (arg args 0) (arg args 1) (drop 2 args) False st) (\<lambda>r st. return None st)
          else if name = ''map'' then doMap rec (arg args 0) (arg args 1) (drop 2 args) True st
          else await (call_state name args st) return)"

definition step :: "recur \<Rightarrow> request \<Rightarrow> interp \<Rightarrow> answer eval" where
  "step rec req st =
     (case req of
        Evaluate body \<Rightarrow> evaluate rec body st
      | Evaluate_loop iter retval \<Rightarrow> evaluate_loop rec iter retval st
      | HandleArg prio iter \<Rightarrow> handleArg rec prio iter st
      | HandleOperator leftValue oldprio iter \<Rightarrow> handleOperator rec leftValue oldprio iter st
      | HandleVariadic iter \<Rightarrow> handleVariadic rec iter st
      | HandleVariadic_loop func command literal args iter \<Rightarrow>
          handleVariadic_loop rec func command literal args iter st
      | HandleFixed iter \<Rightarrow> handleFixed rec iter st
      | HandleFixed_loop func args iter \<Rightarrow> handleFixed_loop rec func args iter st
      | PerformCall func args \<Rightarrow> performCall rec func args st
      | Apply func args \<Rightarrow> apply_func rec func args st
      | Repeat_loop i ntimes block \<Rightarrow> repeat_loop rec i ntimes block st
      | Forever_loop block \<Rightarrow> forever_loop rec block st
      | DoMap_loop iters template collect acc \<Rightarrow> doMap_loop rec iters template collect acc st
      | RunTemplate template args \<Rightarrow> runTemplate rec template args st)"

primrec run :: "nat \<Rightarrow> request \<Rightarrow> interp \<Rightarrow> answer eval" where
  "run 0 req st = None"
| "run (Suc n) req st = step (run n) req st"

text \<open>
  \<open>execute\<close>: refused while running; the source is parsed before \<open>running\<close> is set; the
  \<open>finally\<close> of the source clears \<open>breakFlag\<close> and \<open>running\<close>. A number literal that is no
  integer takes the program out of the model.
\<close>

definition execute :: "nat \<Rightarrow> string \<Rightarrow> interp \<Rightarrow> unit eval" where
  "execute n source st =
     (if running st then Some (Throw (Error ''Logo code is already running''), st)
      else case parse n source of
             None \<Rightarrow> None
           | Some (Inl e) \<Rightarrow> Some (Throw e, st)
           | Some (Inr tokens) \<Rightarrow>
               (case values_of tokens of
                  None \<Rightarrow> Some (Beyond, st)
                | Some program \<Rightarrow>
                    try_finally
                      (await (run n (Evaluate (Some (Lst program))) (st\<lparr>running := True\<rparr>))
                         (\<lambda>(retval, u) st.
                            if retval \<noteq> None
                            then Some (Throw (SyntaxError (''Unhandled output value '' @ String retval)), st)
                            else Some (Ok (), st)))
                      (\<lambda>st. st\<lparr>breakFlag := False, running := False\<rparr>)))"

section \<open>Observations and example states for the statements\<close>

text \<open>An interpreter as the embedder sets it up: \<open>onprint\<close> and \<open>oncall\<close> installed.\<close>

definition observed :: interp where
  "observed = Interpreter\<lparr>onprint := True, oncall := True\<rparr>"

text \<open>A host that calls \<open>break()\<close> during the first suspension.\<close>

definition breaking :: interp where
  "breaking = Interpreter\<lparr>host := [[Break]]\<rparr>"

text \<open>What an execution has printed, whom it has called, and how it leaves the flags
  and callbacks.\<close>

definition printed_by :: "unit eval \<Rightarrow> (unit outcome \<times> string list) option" where
  "printed_by r = map_option (\<lambda>(r, st). (r, printed st)) r"

definition calls_by :: "unit eval \<Rightarrow> (proc \<times> val option list) list option" where
  "calls_by r = map_option (\<lambda>(r, st). called st) r"

definition flags_after :: "unit eval
    \<Rightarrow> (unit outcome \<times> bool \<times> bool \<times> callback option \<times> callback option) option" where
  "flags_after r =
     map_option (\<lambda>(r, st). (r, running st, breakFlag st, onbreak st, oncontinue st)) r"

definition answer_of :: "answer eval \<Rightarrow> answer outcome option" where
  "answer_of r = map_option fst r"

text \<open>An interpreter \<open>g\<close> returns whatever an interpreter \<open>f\<close> returns.\<close>

definition le_rec :: "recur \<Rightarrow> recur \<Rightarrow> bool" where
  "le_rec f g = (\<forall>req st r. f req st = Some r \<longrightarrow> g req st = Some r)"

text \<open>A chain of three scopes; the root binds \<open>x\<close>.\<close>

definition chain0 :: "val scopes" where
  "chain0 = \<lparr>frames = [Map.empty, Map.empty, [''x'' \<mapsto> 0]], cells = (\<lambda>a. Num 1), fresh = 1\<rparr>"

text \<open>The same chain, where the innermost scope binds \<open>x\<close> too.\<close>

definition chain1 :: "val scopes" where
  "chain1 = \<lparr>frames = [[''x'' \<mapsto> 1], Map.empty, [''x'' \<mapsto> 0]], cells = (\<lambda>a. Num (int a)), fresh = 2\<rparr>"

text \<open>
  An interpreter inside a procedure call: one context above the global one. The same
  with the stop flag of that context set. What a call has printed and how it leaves the
  stack of contexts.
\<close>

definition inproc :: interp where
  "inproc = observed\<lparr>contexts := [\<lparr>output = None, stop = False\<rparr>]\<rparr>"

definition stopped :: interp where
  "stopped = observed\<lparr>contexts := [\<lparr>output = None, stop = True\<rparr>]\<rparr>"

definition printed_and_contexts :: "'a eval \<Rightarrow> ('a outcome \<times> string list \<times> Context list) option" where
  "printed_and_contexts r = map_option (\<lambda>(r, st). (r, printed st, contexts st)) r"

text \<open>
  The rule of the specification for a minus sign at position \<open>i\<close> of the source: it
  belongs to a number literal when it is preceded by the start of the input or by
  whitespace and followed by a digit; otherwise it is an operator token.
\<close>

definition minus_is_sign :: "string \<Rightarrow> nat \<Rightarrow> bool" where
  "minus_is_sign src i =
     ((i = 0 \<or> reWhitespace (src ! (i - 1))) \<and> Suc i < length src \<and> reDigit (src ! Suc i))"

text \<open>Values whose words hold no bracket, and a string with its brackets deleted.\<close>

fun plain :: "val \<Rightarrow> bool" where
  "plain (Lst xs) = list_all plain xs"
| "plain (Str s) = (CHR ''['' \<notin> set s \<and> CHR '']'' \<notin> set s)"
| "plain (Num n) = True"
| "plain (Bool b) = True"

definition plain_js :: "val option \<Rightarrow> bool" where
  "plain_js v = (case v of None \<Rightarrow> True | Some x \<Rightarrow> plain x)"

definition unbracket :: "string \<Rightarrow> string" where
  "unbracket s = filter (\<lambda>c. c \<noteq> CHR ''['' \<and> c \<noteq> CHR '']'') s"

definition nested :: val where
  "nested = Lst [Str ''a'', Lst [Str ''b'', Str ''c''], Str ''d'']"

section \<open>More fuel changes no result\<close>

text \<open>
  What the parser and the evaluator return within some fuel, they return within any
  greater fuel: a result does not depend on the fuel that was enough to reach it.
\<close>

lemma le_recD: "le_rec f g \<Longrightarrow> f req st = Some r \<Longrightarrow> g req st = Some r"
  unfolding le_rec_def by blast

lemma await_SomeE:
  assumes "await m k = Some r"
  obtains x st where "m = Some (Ok x, st)" "k x st = Some r"
  | e st where "m = Some (Throw e, st)" "r = (Throw e, st)"
  | st where "m = Some (Beyond, st)" "r = (Beyond, st)"
  using assms by (auto simp: await_def split: option.splits outcome.splits)

lemma await_Ok [simp]: "await (Some (Ok x, st)) k = k x st"
  by (simp add: await_def)

lemma await_Throw [simp]: "await (Some (Throw e, st)) k = Some (Throw e, st)"
  by (simp add: await_def)

lemma await_Beyond [simp]: "await (Some (Beyond, st)) k = Some (Beyond, st)"
  by (simp add: await_def)

lemma evaluate_mono:
  assumes "le_rec f g" "evaluate f body st = Some r" shows "evaluate g body st = Some r"
  using assms(2) unfolding evaluate_def
  by (auto split: if_splits option.splits val.splits dest!: le_recD [OF assms(1)])

lemma evaluate_loop_mono:
  assumes "le_rec f g" "evaluate_loop f iter retval st = Some r"
  shows "evaluate_loop g iter retval st = Some r"
  using assms(2) unfolding evaluate_loop_def
  by (auto split: if_splits sum.splits prod.splits elim!: await_SomeE dest!: le_recD [OF assms(1)])

lemma handleArg_mono:
  assumes "le_rec f g" "handleArg f prio iter st = Some r"
  shows "handleArg g prio iter st = Some r"
  using assms(2) unfolding handleArg_def
  by (auto split: if_splits sum.splits prod.splits elim!: await_SomeE dest!: le_recD [OF assms(1)])

lemma handleOperator_mono:
  assumes "le_rec f g" "handleOperator f l p iter st = Some r"
  shows "handleOperator g l p iter st = Some r"
  using assms(2) unfolding handleOperator_def
  by (auto split: if_splits sum.splits prod.splits elim!: await_SomeE dest!: le_recD [OF assms(1)])

lemma handleVariadic_mono:
  assumes "le_rec f g" "handleVariadic f iter st = Some r"
  shows "handleVariadic g iter st = Some r"
  using assms(2) unfolding handleVariadic_def Let_def
  by (auto split: if_splits sum.splits prod.splits elim!: await_SomeE dest!: le_recD [OF assms(1)])

lemma handleVariadic_loop_mono:
  assumes "le_rec f g" "handleVariadic_loop f fn c l a iter st = Some r"
  shows "handleVariadic_loop g fn c l a iter st = Some r"
  using assms(2) unfolding handleVariadic_loop_def
  by (auto split: if_splits sum.splits prod.splits option.splits elim!: await_SomeE
        dest!: le_recD [OF assms(1)])

lemma handleFixed_mono:
  assumes "le_rec f g" "handleFixed f iter st = Some r"
  shows "handleFixed g iter st = Some r"
  using assms(2) unfolding handleFixed_def Let_def
  by (auto split: if_splits sum.splits prod.splits dest!: le_recD [OF assms(1)])

lemma handleFixed_loop_mono:
  assumes "le_rec f g" "handleFixed_loop f fn a iter st = Some r"
  shows "handleFixed_loop g fn a iter st = Some r"
  using assms(2) unfolding handleFixed_loop_def
  by (auto split: if_splits sum.splits prod.splits elim!: await_SomeE dest!: le_recD [OF assms(1)])

lemma performCall_mono:
  assumes "le_rec f g" "performCall f fn a st = Some r"
  shows "performCall g fn a st = Some r"
  using assms(2) unfolding performCall_def
  by (auto split: if_splits elim!: await_SomeE dest!: le_recD [OF assms(1)])

lemma procedure_mono:
  assumes "le_rec f g" "procedure f an b a st = Some r"
  shows "procedure g an b a st = Some r"
  using assms(2) unfolding procedure_def Let_def
  by (auto split: option.splits prod.splits outcome.splits dest!: le_recD [OF assms(1)])

lemma runresult_mono:
  assumes "le_rec f g" "runresult f b st = Some r"
  shows "runresult g b st = Some r"
  using assms(2) unfolding runresult_def
  by (auto split: if_splits option.splits prod.splits elim!: await_SomeE dest!: le_recD [OF assms(1)])

lemma repeat_mono:
  assumes "le_rec f g" "repeat f k b st = Some r"
  shows "repeat g k b st = Some r"
  using assms(2) unfolding repeat_def
  by (auto split: if_splits option.splits val.splits dest!: le_recD [OF assms(1)])

lemma doMap_mono:
  assumes "le_rec f g" "doMap f d t rs c st = Some r"
  shows "doMap g d t rs c st = Some r"
  using assms(2) unfolding doMap_def
  by (auto split: sum.splits prod.splits dest!: le_recD [OF assms(1)])

lemma apply_func_mono:
  assumes "le_rec f g" "apply_func f fn a st = Some r"
  shows "apply_func g fn a st = Some r"
proof (cases fn)
  case (Builtin name)
  show ?thesis
    using assms(2) unfolding apply_func_def Builtin proc.case run_builtin_def if_builtin_def
    by (auto split: if_splits sum.splits elim!: await_SomeE
          dest!: le_recD [OF assms(1)] runresult_mono [OF assms(1)] repeat_mono [OF assms(1)]
            doMap_mono [OF assms(1)])
next
  case UnaryMinus
  then show ?thesis using assms(2) by (simp add: apply_func_def)
next
  case (Procedure x1 x2 x3)
  then show ?thesis using assms(2) procedure_mono [OF assms(1)] by (simp add: apply_func_def)
qed

lemma repeat_loop_mono:
  assumes "le_rec f g" "repeat_loop f i k b st = Some r"
  shows "repeat_loop g i k b st = Some r"
  using assms(2) unfolding repeat_loop_def
  by (auto split: if_splits elim!: await_SomeE dest!: le_recD [OF assms(1)])

lemma forever_loop_mono:
  assumes "le_rec f g" "forever_loop f b st = Some r"
  shows "forever_loop g b st = Some r"
  using assms(2) unfolding forever_loop_def
  by (auto split: if_splits elim!: await_SomeE dest!: le_recD [OF assms(1)])

lemma doMap_loop_mono:
  assumes "le_rec f g" "doMap_loop f its t c acc st = Some r"
  shows "doMap_loop g its t c acc st = Some r"
  using assms(2) unfolding doMap_loop_def
  by (auto split: if_splits option.splits prod.splits elim!: await_SomeE dest!: le_recD [OF assms(1)])

lemma runTemplate_mono:
  assumes "le_rec f g" "runTemplate f t a st = Some r"
  shows "runTemplate g t a st = Some r"
  using assms(2) unfolding runTemplate_def try_finally_def
  by (auto split: option.splits val.splits list.splits sum.splits prod.splits
        dest!: le_recD [OF assms(1)])

lemma parseMain_Suc:
  "parseMain (Suc n) src st =
     (if peek src st = Some CHR ''['' then parseList_loop n src (push (consume st))
      else parseMain (Suc 0) src st)"
  by (simp split: option.splits)

lemma parse_fuel_Suc:
  "(parseList_loop n src st = Some r \<longrightarrow> parseList_loop (Suc n) src st = Some r)
   \<and> (parseMain n src st = Some r \<longrightarrow> parseMain (Suc n) src st = Some r)"
proof (induction n arbitrary: st r)
  case 0
  show ?case by simp
next
  case (Suc n)
  have l: "\<And>st r. parseList_loop n src st = Some r \<Longrightarrow> parseList_loop (Suc n) src st = Some r"
    and m: "\<And>st r. parseMain n src st = Some r \<Longrightarrow> parseMain (Suc n) src st = Some r"
    using Suc.IH by blast+
  have "parseMain (Suc (Suc n)) src st = Some r" if a: "parseMain (Suc n) src st = Some r"
    using a l unfolding parseMain_Suc [of n] parseMain_Suc [of "Suc n"]
    by (simp split: if_splits)
  moreover have "parseList_loop (Suc (Suc n)) src st = Some r" if a: "parseList_loop (Suc n) src st = Some r"
  proof (cases "peek src st")
    case None
    with a show ?thesis by simp
  next
    case (Some c)
    show ?thesis
    proof (cases "c = CHR '']''")
      case True
      with a Some show ?thesis by simp
    next
      case False
      with a Some consider (1) st' where "parseMain n src st = Some (Inr st')" "parseList_loop n src st' = Some r"
        | (2) e where "parseMain n src st = Some (Inl e)" "r = Inl e"
        by (auto split: option.splits sum.splits)
      then show ?thesis
      proof cases
        case 1
        from m [OF 1(1)] l [OF 1(2)] Some False show ?thesis
          by (subst parseList_loop.simps) (simp del: parseMain.simps parseList_loop.simps)
      next
        case 2
        from m [OF 2(1)] 2(2) Some False show ?thesis
          by (subst parseList_loop.simps) (simp del: parseMain.simps parseList_loop.simps)
      qed
    qed
  qed
  ultimately show ?case by blast
qed

lemma parse_loop_fuel_Suc: "parse_loop n src st = Some r \<Longrightarrow> parse_loop (Suc n) src st = Some r"
proof (induction n arbitrary: st)
  case 0
  then show ?case by simp
next
  case (Suc n)
  show ?case
  proof (cases "peek src st")
    case None
    with Suc.prems show ?thesis by simp
  next
    case (Some c)
    with Suc.prems consider (1) st' where "parseMain n src st = Some (Inr st')" "parse_loop n src st' = Some r"
      | (2) e where "parseMain n src st = Some (Inl e)" "r = Inl e"
      by (auto split: option.splits sum.splits)
    then show ?thesis
    proof cases
      case 1
      from parse_fuel_Suc [THEN conjunct2, THEN mp, OF 1(1)] Suc.IH [OF 1(2)] Some show ?thesis
        by (subst parse_loop.simps) (simp del: parseMain.simps parse_loop.simps)
    next
      case 2
      from parse_fuel_Suc [THEN conjunct2, THEN mp, OF 2(1)] 2(2) Some show ?thesis
        by (subst parse_loop.simps) (simp del: parseMain.simps parse_loop.simps)
    qed
  qed
qed

lemma parse_mono: "parse n src = Some r \<Longrightarrow> parse (n + k) src = Some r"
  by (induction k) (auto simp: parse_def simp del: parse_loop.simps dest: parse_loop_fuel_Suc)

lemma step_mono: "le_rec f g \<Longrightarrow> le_rec (step f) (step g)"
  unfolding le_rec_def [of "step f"] step_def
  by (auto split: request.splits
      dest: evaluate_mono evaluate_loop_mono handleArg_mono handleOperator_mono handleVariadic_mono
        handleVariadic_loop_mono handleFixed_mono handleFixed_loop_mono performCall_mono apply_func_mono
        repeat_loop_mono forever_loop_mono doMap_loop_mono runTemplate_mono)

lemma run_mono: "n \<le> m \<Longrightarrow> le_rec (run n) (run m)"
proof (induction n arbitrary: m)
  case 0
  show ?case by (simp add: le_rec_def)
next
  case (Suc n)
  then obtain m' where m: "m = Suc m'" "n \<le> m'" by (cases m) auto
  from Suc.IH [OF m(2)] have "le_rec (step (run n)) (step (run m'))" by (rule step_mono)
  then show ?case using m by (simp add: le_rec_def)
qed

lemma execute_mono: "execute n src st = Some r \<Longrightarrow> execute (n + k) src st = Some r"
proof -
  assume a: "execute n src st = Some r"
  have le: "le_rec (run n) (run (n + k))" by (rule run_mono) simp
  show ?thesis
  proof (cases "running st")
    case True
    with a show ?thesis by (simp add: execute_def)
  next
    case False
    with a obtain p where p: "parse n src = Some p"
      by (auto simp: execute_def split: option.splits)
    then have pk: "parse (n + k) src = Some p" by (rule parse_mono)
    show ?thesis
      using a False p pk
      by (auto simp: execute_def try_finally_def split: sum.splits option.splits prod.splits
            elim!: await_SomeE dest!: le_recD [OF le])
  qed
qed

lemma printed_by_mono:
  "printed_by (execute n src st) = Some x \<Longrightarrow> printed_by (execute (n + k) src st) = Some x"
  by (auto simp: printed_by_def dest: execute_mono)

lemma calls_by_mono:
  "calls_by (execute n src st) = Some x \<Longrightarrow> calls_by (execute (n + k) src st) = Some x"
  by (auto simp: calls_by_def dest: execute_mono)

section \<open>Scope.set\<close>

lemma lookup_first:
  "j \<le> i \<Longrightarrow> i < length fs \<Longrightarrow> (fs ! i) name = Some a \<Longrightarrow>
   (\<And>m. j \<le> m \<Longrightarrow> m < i \<Longrightarrow> (fs ! m) name = None) \<Longrightarrow> lookup (drop j fs) name = Some a"
proof (induction "i - j" arbitrary: j)
  case 0
  then have "j = i" by simp
  with 0 have "drop j fs = fs ! i # drop (Suc i) fs" by (simp add: Cons_nth_drop_Suc)
  with 0 \<open>j = i\<close> show ?case by simp
next
  case (Suc d)
  then have lt: "j < i" by simp
  with Suc have jl: "j < length fs" by simp
  have none: "(fs ! j) name = None" using Suc.prems(4) [of j] lt by simp
  have "lookup (drop (Suc j) fs) name = Some a"
    using Suc.hyps(1) [of "Suc j"] Suc.hyps(2) Suc.prems lt by simp
  moreover have "drop j fs = fs ! j # drop (Suc j) fs" using jl by (simp add: Cons_nth_drop_Suc)
  ultimately show ?case using none by simp
qed

lemma lookup_None: "lookup fs name = None \<longleftrightarrow> (\<forall>f \<in> set fs. f name = None)"
  by (induction fs) (auto split: option.splits)

text \<open>
  Claim C9. Let \<open>set(name, val)\<close> be called on the scope at position \<open>k\<close> of a scope chain.
  If the name is bound in the chain of that scope, say first by the scope at position \<open>i\<close>
  to the binding \<open>a\<close>, then \<open>set\<close> changes no table of any scope and allocates no binding
  (it creates no shadowing binding) and writes the value into that binding and into no
  other, so that \<open>get(name)\<close> returns the new value from every scope of the chain between
  the calling scope and the binding's scope, and from every scope whatever that resolves
  the name to this binding; a scope that resolves the name to another binding (a
  descendant of the binding's scope that holds or inherits a binding of its own) reads what
  it read before. If the name is bound nowhere in the chain of the calling scope, \<open>set\<close>
  allocates one new binding holding the value and enters it in the table of the root
  scope, where every scope of the chain finds the new value.
\<close>

theorem scope_set_in_place:
  fixes s :: "'v scopes"
  assumes "k < length (frames s)"
  shows "(\<forall>i a. k \<le> i \<and> i < length (frames s) \<and> (frames s ! i) name = Some a
            \<and> (\<forall>m. k \<le> m \<and> m < i \<longrightarrow> (frames s ! m) name = None) \<longrightarrow>
          frames (set_scope k name v s) = frames s
          \<and> fresh (set_scope k name v s) = fresh s
          \<and> cells (set_scope k name v s) = (cells s)(a := v)
          \<and> (\<forall>j. k \<le> j \<and> j \<le> i \<longrightarrow> get j name (set_scope k name v s) = Inr v)
          \<and> (\<forall>j. getBinding j name s = Some a \<longrightarrow> get j name (set_scope k name v s) = Inr v)
          \<and> (\<forall>j b. getBinding j name s = Some b \<and> b \<noteq> a \<longrightarrow>
                get j name (set_scope k name v s) = get j name s))
       \<and> ((\<forall>i. k \<le> i \<and> i < length (frames s) \<longrightarrow> (frames s ! i) name = None) \<longrightarrow>
          frames (set_scope k name v s) = (frames s)[root s := (frames s ! root s)(name \<mapsto> fresh s)]
          \<and> fresh (set_scope k name v s) = Suc (fresh s)
          \<and> cells (set_scope k name v s) = (cells s)(fresh s := v)
          \<and> (\<forall>j. k \<le> j \<and> j < length (frames s) \<longrightarrow> get j name (set_scope k name v s) = Inr v))"
proof (intro conjI allI impI)
  fix i a
  assume h: "k \<le> i \<and> i < length (frames s) \<and> (frames s ! i) name = Some a
            \<and> (\<forall>m. k \<le> m \<and> m < i \<longrightarrow> (frames s ! m) name = None)"
  have gb: "getBinding k name s = Some a"
    unfolding getBinding_def using h by (intro lookup_first [of k i]) auto
  show "frames (set_scope k name v s) = frames s" using gb by (simp add: set_scope_def)
  show "fresh (set_scope k name v s) = fresh s" using gb by (simp add: set_scope_def)
  show "cells (set_scope k name v s) = (cells s)(a := v)" using gb by (simp add: set_scope_def)
  { fix j assume "k \<le> j \<and> j \<le> i"
    then have "lookup (drop j (frames s)) name = Some a"
      using h by (intro lookup_first [of j i]) auto
    then show "get j name (set_scope k name v s) = Inr v"
      using gb by (simp add: set_scope_def get_def getBinding_def) }
  { fix j assume "getBinding j name s = Some a"
    then show "get j name (set_scope k name v s) = Inr v"
      using gb by (simp add: set_scope_def get_def getBinding_def) }
  { fix j b assume "getBinding j name s = Some b \<and> b \<noteq> a"
    then show "get j name (set_scope k name v s) = get j name s"
      using gb by (simp add: set_scope_def get_def getBinding_def) }
next
  assume h: "\<forall>i. k \<le> i \<and> i < length (frames s) \<longrightarrow> (frames s ! i) name = None"
  have "\<forall>f \<in> set (drop k (frames s)). f name = None"
  proof
    fix f assume "f \<in> set (drop k (frames s))"
    then obtain m where "m < length (drop k (frames s))" "f = drop k (frames s) ! m"
      by (auto simp: in_set_conv_nth)
    then show "f name = None" using h by simp
  qed
  then have gb: "getBinding k name s = None" by (simp add: getBinding_def lookup_None)
  let ?r = "root s"
  have r: "?r < length (frames s)" "k \<le> ?r" using assms by (auto simp: root_def)
  show fr: "frames (set_scope k name v s) = (frames s)[?r := (frames s ! ?r)(name \<mapsto> fresh s)]"
    using gb by (simp add: set_scope_def bindValue_def bind_def)
  show "fresh (set_scope k name v s) = Suc (fresh s)"
    using gb by (simp add: set_scope_def bindValue_def bind_def)
  show "cells (set_scope k name v s) = (cells s)(fresh s := v)"
    using gb by (simp add: set_scope_def bindValue_def bind_def)
  { fix j assume j: "k \<le> j \<and> j < length (frames s)"
    have "lookup (drop j (frames (set_scope k name v s))) name = Some (fresh s)"
    proof (rule lookup_first [of j ?r])
      show "j \<le> ?r" using j unfolding root_def by linarith
      show "?r < length (frames (set_scope k name v s))" using r fr by simp
      show "(frames (set_scope k name v s) ! ?r) name = Some (fresh s)" using r fr by simp
      fix m assume "j \<le> m" "m < ?r"
      then show "(frames (set_scope k name v s) ! m) name = None" using h j r fr by simp
    qed
    then show "get j name (set_scope k name v s) = Inr v"
      using gb by (simp add: get_def getBinding_def set_scope_def bindValue_def bind_def) }
qed

text \<open>
  On the chain \<open>chain0\<close>: the innermost scope sets \<open>x\<close>, which the root binds, and then
  \<open>y\<close>, which no scope binds. On the chain \<open>chain1\<close>: the middle scope sets \<open>x\<close>, which the
  root binds and the innermost scope binds again.
\<close>

theorem scope_set_in_place_witness:
  "get 0 ''x'' (set_scope 0 ''x'' (Num 5) chain0) = Inr (Num 5)
   \<and> get 1 ''x'' (set_scope 0 ''x'' (Num 5) chain0) = Inr (Num 5)
   \<and> frames (set_scope 0 ''x'' (Num 5) chain0) = frames chain0
   \<and> get 0 ''y'' (set_scope 0 ''y'' (Num 7) chain0) = Inr (Num 7)
   \<and> frames (set_scope 0 ''y'' (Num 7) chain0) = [Map.empty, Map.empty, [''x'' \<mapsto> 0, ''y'' \<mapsto> 1]]
   \<and> fresh (set_scope 0 ''y'' (Num 7) chain0) = 2
   \<and> get 0 ''x'' (set_scope 1 ''x'' (Num 5) chain1) = get 0 ''x'' chain1
   \<and> get 1 ''x'' (set_scope 1 ''x'' (Num 5) chain1) = Inr (Num 5)"
proof -
  have k: "0 < length (frames chain0)" by (simp add: chain0_def)
  have bound: "0 \<le> (2::nat) \<and> 2 < length (frames chain0) \<and> (frames chain0 ! 2) ''x'' = Some 0
      \<and> (\<forall>m. 0 \<le> m \<and> m < 2 \<longrightarrow> (frames chain0 ! m) ''x'' = None)"
    by (simp add: chain0_def less_2_cases_iff)
  have unbound: "\<forall>i. 0 \<le> i \<and> i < length (frames chain0) \<longrightarrow> (frames chain0 ! i) ''y'' = None"
    by (simp add: chain0_def less_Suc_eq)
  from scope_set_in_place [OF k, of "''x''" "Num 5", THEN conjunct1, rule_format, OF bound]
  have x: "frames (set_scope 0 ''x'' (Num 5) chain0) = frames chain0"
    "\<forall>j. 0 \<le> j \<and> j \<le> 2 \<longrightarrow> get j ''x'' (set_scope 0 ''x'' (Num 5) chain0) = Inr (Num 5)"
    by blast+
  from scope_set_in_place [OF k, of "''y''" "Num 7", THEN conjunct2, THEN mp, OF unbound]
  have y: "frames (set_scope 0 ''y'' (Num 7) chain0)
             = (frames chain0)[root chain0 := (frames chain0 ! root chain0)(''y'' \<mapsto> fresh chain0)]"
    "fresh (set_scope 0 ''y'' (Num 7) chain0) = Suc (fresh chain0)"
    "\<forall>j. 0 \<le> j \<and> j < length (frames chain0) \<longrightarrow> get j ''y'' (set_scope 0 ''y'' (Num 7) chain0) = Inr (Num 7)"
    by blast+
  have y0: "get 0 ''y'' (set_scope 0 ''y'' (Num 7) chain0) = Inr (Num 7)" using y(3) k by blast
  have yf: "frames (set_scope 0 ''y'' (Num 7) chain0) = [Map.empty, Map.empty, [''x'' \<mapsto> 0, ''y'' \<mapsto> 1]]"
    using y(1) by (simp add: chain0_def root_def)
  have yn: "fresh (set_scope 0 ''y'' (Num 7) chain0) = 2" using y(2) by (simp add: chain0_def)
  have k1: "1 < length (frames chain1)" by (simp add: chain1_def)
  have bound1: "1 \<le> (2::nat) \<and> 2 < length (frames chain1) \<and> (frames chain1 ! 2) ''x'' = Some 0
      \<and> (\<forall>m. 1 \<le> m \<and> m < 2 \<longrightarrow> (frames chain1 ! m) ''x'' = None)"
    by (auto simp: chain1_def)
  from scope_set_in_place [OF k1, of "''x''" "Num 5", THEN conjunct1, rule_format, OF bound1]
  have z: "\<forall>j. 1 \<le> j \<and> j \<le> 2 \<longrightarrow> get j ''x'' (set_scope 1 ''x'' (Num 5) chain1) = Inr (Num 5)"
    "\<forall>j b. getBinding j ''x'' chain1 = Some b \<and> b \<noteq> 0 \<longrightarrow>
        get j ''x'' (set_scope 1 ''x'' (Num 5) chain1) = get j ''x'' chain1"
    by blast+
  have "getBinding 0 ''x'' chain1 = Some 1" by (simp add: getBinding_def chain1_def)
  with z(2) have z0: "get 0 ''x'' (set_scope 1 ''x'' (Num 5) chain1) = get 0 ''x'' chain1" by simp
  from z(1) have z1: "get 1 ''x'' (set_scope 1 ''x'' (Num 5) chain1) = Inr (Num 5)" by simp
  from x y0 yf yn z0 z1 show ?thesis by simp
qed

text \<open>
  Not every descendant of the binding's scope reads the new value. In \<open>chain1\<close> the
  innermost scope is a descendant of the root and binds \<open>x\<close> itself (as \<open>local\<close> or a
  procedure parameter does). The middle scope and the root resolve \<open>x\<close> to the root's
  binding; after the middle scope has set \<open>x\<close> to 5 both read 5, and the innermost scope
  still reads its own 1.
\<close>

theorem scope_set_shadowed_descendant_counterexample:
  "getBinding 1 ''x'' chain1 = Some 0
   \<and> getBinding 2 ''x'' chain1 = Some 0
   \<and> get 1 ''x'' (set_scope 1 ''x'' (Num 5) chain1) = Inr (Num 5)
   \<and> get 2 ''x'' (set_scope 1 ''x'' (Num 5) chain1) = Inr (Num 5)
   \<and> get 0 ''x'' (set_scope 1 ''x'' (Num 5) chain1) = Inr (Num 1)
   \<and> get 0 ''x'' (set_scope 1 ''x'' (Num 5) chain1) \<noteq> Inr (Num 5)"
  by (simp add: chain1_def getBinding_def get_def set_scope_def)

section \<open>print and show\<close>

lemma digit_char_in: "d < 10 \<Longrightarrow> digit_char d \<in> set ''0123456789''"
  unfolding digit_char_def by (rule nth_mem) simp

lemma string_of_nat_digits: "set (string_of_nat n) \<subseteq> set ''0123456789''"
proof (induction n rule: string_of_nat.induct)
  case (1 n)
  show ?case
  proof (cases "n < 10")
    case True
    then show ?thesis using digit_char_in [of n] by (subst string_of_nat.simps) simp
  next
    case False
    have "n mod 10 < 10" by simp
    then have "digit_char (n mod 10) \<in> set ''0123456789''" by (rule digit_char_in)
    then show ?thesis using 1 False by (subst string_of_nat.simps) simp
  qed
qed

lemma unbracket_string_of_int: "unbracket (string_of_int i) = string_of_int i"
proof -
  have "\<forall>c \<in> set (string_of_int i). c \<noteq> CHR ''['' \<and> c \<noteq> CHR '']''"
    using string_of_nat_digits [of "nat i"] string_of_nat_digits [of "nat (- i)"]
    by (auto simp: string_of_int_def)
  then show ?thesis unfolding unbracket_def by (simp add: filter_id_conv)
qed

lemma unbracket_append: "unbracket (a @ b) = unbracket a @ unbracket b"
  by (simp add: unbracket_def)

lemma unbracket_join: "unbracket (join '' '' ss) = join '' '' (map unbracket ss)"
  by (induction "'' ''" ss rule: join.induct) (simp_all add: unbracket_def)

lemma unbracket_stringify: "plain v \<Longrightarrow> unbracket (stringify (''['', '']'') v) = stringify ('''', '''') v"
proof (induction v)
  case (Lst xs)
  then have m: "map unbracket (map (stringify (''['', '']'')) xs) = map (stringify ('''', '''')) xs"
    by (auto simp: list_all_iff)
  have "unbracket (stringify (''['', '']'') (Lst xs))
          = unbracket ''['' @ join '' '' (map unbracket (map (stringify (''['', '']'')) xs)) @ unbracket '']''"
    by (simp only: stringify.simps fst_conv snd_conv unbracket_append unbracket_join)
  also have "\<dots> = join '' '' (map (stringify ('''', '''')) xs)"
    by (simp only: m) (simp add: unbracket_def)
  finally show ?case by simp
next
  case (Str s)
  then show ?case by (auto simp: unbracket_def filter_id_conv)
qed (simp_all add: unbracket_string_of_int, simp add: unbracket_def)

text \<open>
  Claim C6, as the code has it. \<open>print\<close> and \<open>show\<close> differ only in the delimiters they
  hand to \<open>List.stringify\<close>, and the delimiters hold at every depth: \<open>show\<close> puts brackets
  around every list, \<open>print\<close> around none, the nested lists included. So for arguments
  whose words hold no bracket of their own, the line that \<open>print\<close> prints is the line that
  \<open>show\<close> prints with all brackets deleted.
\<close>

theorem print_is_show_without_brackets:
  "list_all plain_js args \<Longrightarrow> print_message args = unbracket (show_message args)"
proof -
  assume a: "list_all plain_js args"
  have "\<And>x. x \<in> set args \<Longrightarrow> unbracket (stringify_js (''['', '']'') x) = stringify_js ('''', '''') x"
  proof -
    fix x assume "x \<in> set args"
    with a have "plain_js x" by (simp add: list_all_iff)
    then show "unbracket (stringify_js (''['', '']'') x) = stringify_js ('''', '''') x"
      by (cases x) (simp_all add: plain_js_def stringify_js_def unbracket_stringify, simp add: unbracket_def)
  qed
  then have m: "map unbracket (map (stringify_js (''['', '']'')) args) = map (stringify_js ('''', '''')) args"
    by simp
  show ?thesis unfolding print_message_def show_message_def unbracket_join m ..
qed

theorem print_is_show_without_brackets_witness:
  "list_all plain_js [Some nested, Some (Num 3)]
   \<and> print_message [Some nested, Some (Num 3)] = ''a b c d 3''
   \<and> show_message [Some nested, Some (Num 3)] = ''[a [b c] d] 3''"
  using print_is_show_without_brackets [of "[Some nested, Some (Num 3)]"]
  by (simp add: nested_def plain_js_def show_message_def stringify_js_def unbracket_def
        string_of_int_def string_of_nat.simps digit_char_def)

text \<open>
  Claim C6 as stated fails: \<open>print [a [b c] d]\<close> prints \<open>a b c d\<close>, without the brackets
  that the claim has around the nested list; \<open>show\<close> keeps them all.
\<close>

theorem print_nested_counterexample:
  "print_message [Some nested] = ''a b c d''
   \<and> print_message [Some nested] \<noteq> ''a [b c] d''
   \<and> show_message [Some nested] = ''[a [b c] d]''
   \<and> printed_by (execute 20 ''print [a [b c] d] show [a [b c] d]'' observed)
       = Some (Ok (), [''a b c d'', ''[a [b c] d]''])"
proof -
  have "printed_by (execute 20 ''print [a [b c] d] show [a [b c] d]'' observed)
       = Some (Ok (), [''a b c d'', ''[a [b c] d]''])"
    by code_simp
  then show ?thesis
    by (simp add: nested_def print_message_def show_message_def stringify_js_def)
qed

section \<open>item\<close>

text \<open>
  Claim C7 holds of lists and fails of words. On a string \<open>item\<close> reads \<open>thing[index]\<close>,
  which counts from 0, behind a bound that fits a count from 1: \<open>item 1\<close> of \<open>abc\<close> is
  \<open>b\<close> where \<open>first\<close> gives \<open>a\<close>, index 0 is accepted and gives \<open>a\<close>, and index 3, the length,
  gives \<open>undefined\<close> and no error.
\<close>

theorem item_string_off_by_one:
  "item (Some (Num 1)) (Some (Str ''abc'')) = Inr (Some (Str ''b''))
   \<and> first (Some (Str ''abc'')) = Inr (Some (Str ''a''))
   \<and> item (Some (Num 0)) (Some (Str ''abc'')) = Inr (Some (Str ''a''))
   \<and> item (Some (Num 3)) (Some (Str ''abc'')) = Inr None
   \<and> item (Some (Num 1)) (Some (Lst [Str ''a'', Str ''b'', Str ''c''])) = Inr (Some (Str ''a''))"
  by (simp add: item_def first_def toInt32_def charAt_js_def)

text \<open>The list half of the claim: \<open>item\<close> counts the items of a list from 1.\<close>

lemma item_loop_nth:
  "n \<le> i \<Longrightarrow> i < n + int (length xs) \<Longrightarrow> item_loop n i xs = Inr (Some (xs ! nat (i - n)))"
proof (induction xs arbitrary: n)
  case Nil then show ?case by simp
next
  case (Cons x xs)
  show ?case
  proof (cases "n = i")
    case True then show ?thesis by simp
  next
    case False
    with Cons.prems have "n + 1 \<le> i" "i < n + 1 + int (length xs)" by simp_all
    from Cons.IH [OF this] have "item_loop (n + 1) i xs = Inr (Some (xs ! nat (i - (n + 1))))" .
    moreover have "nat (i - n) = Suc (nat (i - (n + 1)))" using \<open>n + 1 \<le> i\<close> by simp
    ultimately show ?thesis using False by simp
  qed
qed

lemma item_loop_beyond:
  "i < n \<or> n + int (length xs) \<le> i \<Longrightarrow> item_loop n i xs = Inl (TypeError ''index is beyond list length'')"
  by (induction xs arbitrary: n) auto

lemma toInt32_id: "0 \<le> i \<Longrightarrow> i < 2 ^ 31 \<Longrightarrow> toInt32 i = i"
  by (simp add: toInt32_def)

lemma item_list_one_based:
  "1 \<le> i \<Longrightarrow> i \<le> int (length xs) \<Longrightarrow> i < 2 ^ 31 \<Longrightarrow>
   item (Some (Num i)) (Some (Lst xs)) = Inr (Some (xs ! nat (i - 1)))"
  using item_loop_nth [of 1 i xs] by (simp add: item_def toInt32_id)

lemma item_list_first:
  "xs \<noteq> [] \<Longrightarrow> item (Some (Num 1)) (Some (Lst xs)) = first (Some (Lst xs))"
  by (cases xs) (simp_all add: item_def first_def toInt32_def)

lemma item_list_out_of_range:
  "i \<le> 0 \<or> int (length xs) < i \<Longrightarrow> \<exists>msg. item (Some (Num i)) (Some (Lst xs)) = Inl (TypeError msg)"
  using item_loop_beyond [of i 1 xs] by (auto simp: item_def)

section \<open>The parser\<close>

lemma parse_loop_stuck: "endp st = 0 \<Longrightarrow> parse_loop n '']'' st = None"
proof (induction n arbitrary: st)
  case 0
  show ?case by simp
next
  case (Suc n)
  have pk: "peek '']'' st = Some CHR '']''" using Suc.prems by (simp add: peek_def charAt_def)
  show ?case
  proof (cases n)
    case 0
    then show ?thesis using pk by simp
  next
    case (Suc m)
    have w: "parseWord '']'' st = record_token (TWord []) st"
      unfolding parseWord_def using pk
      by (subst parseWord_loop.simps) (simp add: reWhitespace_def reDelimiters_def)
    have m: "parseMain (Suc m) '']'' st = Some (Inr (record_token (TWord []) st))"
      using pk w by (simp add: reWhitespace_def reNewline_def reDigit_def reOperators_def)
    have "endp (record_token (TWord []) st) = 0" using Suc.prems by (simp add: record_token_def)
    then have "parse_loop n '']'' (record_token (TWord []) st) = None" by (rule Suc.IH)
    then show ?thesis using pk m Suc by simp
  qed
qed

text \<open>
  Every other way through the parser moves on: each round of \<open>parseMain\<close> that returns
  a state has consumed a character, so on a source without any \<open>]\<close> the parser returns,
  with tokens or with a syntax error, once the fuel is enough.
\<close>

lemma parseMain_fuel_le: "parseMain n src st = Some r \<Longrightarrow> n \<le> m \<Longrightarrow> parseMain m src st = Some r"
  by (induction m) (auto simp: le_Suc_eq simp del: parseMain.simps dest: parse_fuel_Suc [THEN conjunct2, THEN mp])

lemma parseList_loop_fuel_le:
  "parseList_loop n src st = Some r \<Longrightarrow> n \<le> m \<Longrightarrow> parseList_loop m src st = Some r"
  by (induction m) (auto simp: le_Suc_eq simp del: parseList_loop.simps dest: parse_fuel_Suc [THEN conjunct1, THEN mp])

lemma parse_loop_fuel_le: "parse_loop n src st = Some r \<Longrightarrow> n \<le> m \<Longrightarrow> parse_loop m src st = Some r"
  by (induction m) (auto simp: le_Suc_eq simp del: parse_loop.simps dest: parse_loop_fuel_Suc)

lemma peek_in_set: "peek src st = Some c \<Longrightarrow> c \<in> set src"
  by (auto simp: peek_def charAt_def split: if_splits)

lemma digits_endp: "endp st \<le> endp (snd (digits src t st))"
proof (induction src t st rule: digits.induct)
  case (1 src token st)
  show ?case
  proof (cases "peek src st")
    case None
    then show ?thesis by (subst digits.simps) simp
  next
    case (Some c)
    show ?thesis
    proof (cases "reDigit c")
      case True
      with 1 [OF Some True] Some show ?thesis by (subst digits.simps) (simp add: consume_def)
    next
      case False
      with Some show ?thesis by (subst digits.simps) simp
    qed
  qed
qed

lemma parseComment_loop_endp: "endp st < endp (parseComment_loop src st)"
proof (induction src st rule: parseComment_loop.induct)
  case (1 src st)
  show ?case
  proof (cases "peek src st")
    case None
    then show ?thesis by (subst parseComment_loop.simps) (simp add: discard_def consume_def)
  next
    case (Some c)
    show ?thesis
    proof (cases "reNewline c")
      case True
      with Some show ?thesis by (subst parseComment_loop.simps) (simp add: discard_def consume_def)
    next
      case False
      with 1 [OF Some False] Some show ?thesis
        by (subst parseComment_loop.simps) (simp add: consume_def)
    qed
  qed
qed

lemma parseWord_loop_endp: "endp st \<le> endp (parseWord_loop src t st)"
proof (induction src t st rule: parseWord_loop.induct)
  case (1 src token st)
  show ?case
  proof (cases "peek src st")
    case None
    then show ?thesis by (subst parseWord_loop.simps) (simp add: record_token_def)
  next
    case (Some c)
    note IH = 1 [OF Some]
    show ?thesis
      apply (subst parseWord_loop.simps)
      using Some IH
      apply (cases "reDelimiters c")
       apply (auto simp: record_token_def consume_def Let_def)
      done
  qed
qed

lemma digits_endp_le: "k \<le> endp s \<Longrightarrow> k \<le> endp (snd (digits src t s))"
  using digits_endp [of s src t] by simp

lemma parseFraction_endp: "parseFraction src t s = Inr (t', s') \<Longrightarrow> endp s \<le> endp s'"
  by (auto simp: parseFraction_def Let_def consume_def split: if_splits option.splits
        dest!: arg_cong [where f = snd] intro!: digits_endp_le)

lemma parseExponent_endp: "endp s \<le> endp (snd (parseExponent src t s))"
  by (auto simp: parseExponent_def Let_def consume_def split: option.splits intro!: digits_endp_le)

lemma parseNumber_endp: "parseNumber src st = Inr st' \<Longrightarrow> endp st < endp st'"
proof -
  assume a: "parseNumber src st = Inr st'"
  let ?t = "case peek src st of None \<Rightarrow> [] | Some c \<Rightarrow> [c]"
  show ?thesis
  proof (cases "parseNumber src st = Inr (record_token (TWord ?t) (consume st))")
    case True
    with a show ?thesis by (auto simp: record_token_def consume_def)
  next
    case False
    obtain t1 s1 where ds: "digits src ?t (consume st) = (t1, s1)"
      by (cases "digits src ?t (consume st)")
    have "Suc (endp st) \<le> endp (snd (digits src ?t (consume st)))"
      by (rule digits_endp_le) (simp add: consume_def)
    with ds have 1: "endp st < endp s1" by simp
    from a False ds obtain t2 s2 where fr: "parseFraction src t1 s1 = Inr (t2, s2)"
      by (auto simp: parseNumber_def Let_def split: if_splits sum.splits)
    from parseFraction_endp [OF fr] have 2: "endp s1 \<le> endp s2" .
    obtain t3 s3 where ex: "parseExponent src t2 s2 = (t3, s3)" by (cases "parseExponent src t2 s2")
    from parseExponent_endp [of s2 src t2] ex have 3: "endp s2 \<le> endp s3" by simp
    from a False ds fr ex have "st' = record_token (TNum t3) s3 \<or> st' = s3"
      by (auto simp: parseNumber_def Let_def split: if_splits)
    with 1 2 3 show ?thesis by (auto simp: record_token_def)
  qed
qed

lemma parseWord_progress:
  "peek src st = Some c \<Longrightarrow> \<not> reWhitespace c \<Longrightarrow> \<not> reDelimiters c
   \<Longrightarrow> endp st < endp (parseWord src st)"
proof -
  assume a: "peek src st = Some c" "\<not> reWhitespace c" "\<not> reDelimiters c"
  have "\<And>t s. Suc (endp st) \<le> endp s \<Longrightarrow> Suc (endp st) \<le> endp (parseWord_loop src t s)"
    using parseWord_loop_endp order_trans by blast
  then show ?thesis
    unfolding parseWord_def using a
    by (subst parseWord_loop.simps) (auto simp: Let_def consume_def Suc_le_eq [symmetric])
qed

lemma parseList_never_closes:
  "CHR '']'' \<notin> set src \<Longrightarrow> parseList_loop n src st \<noteq> Some (Inr st')"
proof (induction n arbitrary: st)
  case 0
  show ?case by simp
next
  case (Suc n)
  show ?case
  proof (cases "peek src st")
    case None
    then show ?thesis by simp
  next
    case (Some c)
    with Suc.prems have c: "c \<noteq> CHR '']''" using peek_in_set by blast
    show ?thesis
      using Some c Suc.IH [OF Suc.prems]
      by (subst parseList_loop.simps)
         (auto simp del: parseMain.simps parseList_loop.simps split: option.splits sum.splits)
  qed
qed

lemma parseMain_progress:
  assumes "CHR '']'' \<notin> set src" "parseMain n src st = Some (Inr st')"
  shows "endp st < endp st'"
proof (cases n)
  case 0
  with assms(2) show ?thesis by simp
next
  case (Suc m)
  from assms(2) Suc obtain c where pk: "peek src st = Some c"
    by (auto split: option.splits)
  with assms(1) have c: "c \<noteq> CHR '']''" using peek_in_set by blast
  consider (comment) "c = CHR '';''" | (list) "c \<noteq> CHR '';''" "c = CHR ''[''"
    | (space) "c \<noteq> CHR '';''" "c \<noteq> CHR ''[''" "reWhitespace c \<or> reNewline c"
    | (number) "c \<noteq> CHR '';''" "c \<noteq> CHR ''[''" "\<not> reWhitespace c" "\<not> reNewline c"
        "c = CHR ''-'' \<or> reDigit c"
    | (op) "c \<noteq> CHR '';''" "c \<noteq> CHR ''[''" "\<not> reWhitespace c" "\<not> reNewline c"
        "\<not> (c = CHR ''-'' \<or> reDigit c)" "c = CHR ''('' \<or> c = CHR '')'' \<or> reOperators c"
    | (word) "c \<noteq> CHR '';''" "c \<noteq> CHR ''[''" "\<not> reWhitespace c" "\<not> reNewline c"
        "\<not> (c = CHR ''-'' \<or> reDigit c)" "\<not> (c = CHR ''('' \<or> c = CHR '')'' \<or> reOperators c)"
    by blast
  then show ?thesis
  proof cases
    case comment
    with assms(2) Suc pk have "st' = parseComment src st" by simp
    then show ?thesis
      using parseComment_loop_endp [of "consume st" src] by (simp add: parseComment_def consume_def)
  next
    case list
    with assms(2) Suc pk have "parseList_loop m src (push (consume st)) = Some (Inr st')" by simp
    with parseList_never_closes [OF assms(1)] show ?thesis by blast
  next
    case space
    with assms(2) Suc pk have "st' = discard (consume st)" by (auto split: if_splits)
    then show ?thesis by (simp add: discard_def consume_def)
  next
    case number
    with assms(2) Suc pk have "parseNumber src st = Inr st'" by auto
    then show ?thesis by (rule parseNumber_endp)
  next
    case op
    with assms(2) Suc pk have "st' = record_token (TWord [c]) (consume st)" by (auto split: if_splits)
    then show ?thesis by (simp add: record_token_def consume_def)
  next
    case word
    with assms(2) Suc pk have s: "st' = parseWord src st" by auto
    from word c have "\<not> reDelimiters c"
      by (auto simp: reDelimiters_def reOperators_def)
    with parseWord_progress [OF pk word(3)] s show ?thesis by simp
  qed
qed


lemma parse_terminates_without_close_bracket_aux:
  assumes nb: "CHR '']'' \<notin> set src"
  shows "length src - endp st \<le> d \<Longrightarrow>
    (\<exists>n r. parseMain n src st = Some r) \<and> (\<exists>n r. parseList_loop n src st = Some r)
    \<and> (\<exists>n r. parse_loop n src st = Some r)"
proof (induction d arbitrary: st rule: less_induct)
  case (less d)
  have smaller: "\<And>s :: pstate. endp st < endp s \<Longrightarrow> endp st < length src \<Longrightarrow>
      (\<exists>n r. parseMain n src s = Some r) \<and> (\<exists>n r. parseList_loop n src s = Some r)
      \<and> (\<exists>n r. parse_loop n src s = Some r)"
  proof -
    fix s :: pstate assume "endp st < endp s" "endp st < length src"
    with less.prems have "length src - endp s < d" by linarith
    with less.IH [of "length src - endp s" s] show "(\<exists>n r. parseMain n src s = Some r)
      \<and> (\<exists>n r. parseList_loop n src s = Some r) \<and> (\<exists>n r. parse_loop n src s = Some r)"
      by simp
  qed
  show ?case
  proof (cases "peek src st")
    case None
    then have "parseMain 1 src st = Some (Inl (SyntaxError ''End of input''))"
      "parseList_loop 1 src st = Some (Inl (SyntaxError ''End of input in list''))"
      "parse_loop 1 src st = Some (Inr (parsed st))"
      by simp_all
    then show ?thesis by blast
  next
    case (Some c)
    then have lt: "endp st < length src" by (simp add: peek_def charAt_def split: if_splits)
    have main: "\<exists>n r. parseMain n src st = Some r"
    proof (cases "c = CHR ''[''")
      case True
      have "endp st < endp (push (consume st))" by (simp add: push_def consume_def)
      from smaller [OF this lt] obtain n r where "parseList_loop n src (push (consume st)) = Some r"
        by blast
      with Some True have "parseMain (Suc n) src st = Some r" by simp
      then show ?thesis by blast
    next
      case False
      with Some have "parseMain (Suc 0) src st \<noteq> None" by (simp split: if_splits)
      then show ?thesis by blast
    qed
    then obtain n1 r1 where m1: "parseMain n1 src st = Some r1" by blast
    from nb Some have c: "c \<noteq> CHR '']''" using peek_in_set by blast
    have "(\<exists>n r. parseList_loop n src st = Some r) \<and> (\<exists>n r. parse_loop n src st = Some r)"
    proof (cases r1)
      case (Inl e)
      with m1 Some c have "parseList_loop (Suc n1) src st = Some (Inl e)"
        "parse_loop (Suc n1) src st = Some (Inl e)"
        by (simp_all del: parseMain.simps)
      then show ?thesis by blast
    next
      case (Inr st1)
      with m1 have "endp st < endp st1" using parseMain_progress [OF nb] by blast
      from smaller [OF this lt] obtain n2 r2 n3 r3
        where l2: "parseList_loop n2 src st1 = Some r2" and p3: "parse_loop n3 src st1 = Some r3"
        by blast
      let ?N = "max n1 (max n2 n3)"
      from m1 Inr have mN: "parseMain ?N src st = Some (Inr st1)"
        by (auto intro: parseMain_fuel_le)
      from l2 have "parseList_loop ?N src st1 = Some r2" by (auto intro: parseList_loop_fuel_le)
      with mN Some c have a: "parseList_loop (Suc ?N) src st = Some r2"
        by (simp del: parseMain.simps parseList_loop.simps add: parseList_loop.simps(2))
      from p3 have "parse_loop ?N src st1 = Some r3" by (auto intro: parse_loop_fuel_le)
      with mN Some have b: "parse_loop (Suc ?N) src st = Some r3"
        by (simp del: parseMain.simps parse_loop.simps add: parse_loop.simps(2))
      from a b show ?thesis by blast
    qed
    with main show ?thesis by blast
  qed
qed

lemma parse_terminates_without_close_bracket:
  "CHR '']'' \<notin> set src \<Longrightarrow> \<exists>n r. parse n src = Some r"
  using parse_terminates_without_close_bracket_aux [of src _ "length src"]
  by (simp add: parse_def)

text \<open>The characters that \<open>parseMain\<close> records by themselves, and what it does with \<open>=\<close>.\<close>

lemma parseMain_operator_token:
  "peek src st = Some c \<Longrightarrow> c \<in> set ''+*/<>()''
   \<Longrightarrow> parseMain (Suc n) src st = Some (Inr (record_token (TWord [c]) (consume st)))"
  by (auto simp: reWhitespace_def reNewline_def reDigit_def reOperators_def)

lemma parseMain_equals_sign:
  "peek src st = Some CHR ''='' \<Longrightarrow> parseMain (Suc n) src st = Some (Inr (parseWord src st))"
  by (simp add: reWhitespace_def reNewline_def reDigit_def reOperators_def)

text \<open>
  Claim C4 fails on the code at an unmatched \<open>]\<close> at top level. \<open>parseMain\<close> hands the
  bracket to \<open>parseWord\<close>, which records the empty word and returns without consuming
  the bracket, so the loop of \<open>parse\<close> meets the same character again: no amount of fuel
  makes \<open>parse\<close> return on the source \<open>]\<close>. A number followed by a character that does not
  end it is harmless: on \<open>1a\<close> the digit is consumed and dropped, and \<open>parse\<close> returns the
  word \<open>a\<close>.
\<close>

theorem parse_unmatched_bracket_diverges:
  "(\<forall>n. parse n '']'' = None) \<and> parse (5 + k) ''1a'' = Some (Inr [TWord ''a''])"
proof
  show "\<forall>n. parse n '']'' = None" by (simp add: parse_def parse_loop_stuck)
  have "parse 5 ''1a'' = Some (Inr [TWord ''a''])" by code_simp
  then show "parse (5 + k) ''1a'' = Some (Inr [TWord ''a''])" by (rule parse_mono)
qed

text \<open>
  Claim C5 fails on the code for the character \<open>=\<close>: it is in the table \<open>precedence\<close> and
  among the builtins, but neither in \<open>reDelimiters\<close> nor in \<open>reOperators\<close>. The parser reads
  it as part of a word (\<open>1=2\<close> parses into the one word \<open>=2\<close>, the \<open>1\<close> dropped), and the
  evaluator does not take a token \<open>=\<close> for an operator: \<open>print 1 = 2\<close> prints \<open>1\<close> and then
  fails for want of arguments to the procedure \<open>=\<close>, where \<open>print 1 < 2\<close> prints \<open>true\<close>.
  Between spaces the token is recorded by itself.
\<close>

theorem equals_sign_is_no_operator:
  "parse (10 + k) ''1 = 2'' = Some (Inr [TNum ''1'', TWord ''='', TNum ''2''])
   \<and> parse (10 + k) ''1=2'' = Some (Inr [TWord ''=2''])
   \<and> parse (10 + k) ''1<2'' = Some (Inr [TNum ''1'', TWord ''<'', TNum ''2''])
   \<and> \<not> isOperator (Some (Str ''=''))
   \<and> printed_by (execute (20 + k) ''print 1 = 2'' observed)
       = Some (Throw (SyntaxError ''End of input expecting fixed arg''), [''1''])
   \<and> printed_by (execute (20 + k) ''print 1 < 2'' observed) = Some (Ok (), [''true''])"
proof -
  have "parse 10 ''1 = 2'' = Some (Inr [TNum ''1'', TWord ''='', TNum ''2''])"
    by code_simp
  then have a: "parse (10 + k) ''1 = 2'' = Some (Inr [TNum ''1'', TWord ''='', TNum ''2''])"
    by (rule parse_mono)
  have "parse 10 ''1=2'' = Some (Inr [TWord ''=2''])"
    by code_simp
  then have b: "parse (10 + k) ''1=2'' = Some (Inr [TWord ''=2''])"
    by (rule parse_mono)
  have "parse 10 ''1<2'' = Some (Inr [TNum ''1'', TWord ''<'', TNum ''2''])"
    by code_simp
  then have c: "parse (10 + k) ''1<2'' = Some (Inr [TNum ''1'', TWord ''<'', TNum ''2''])"
    by (rule parse_mono)
  have d: "\<not> isOperator (Some (Str ''=''))"
    by (simp add: reOperators_def)
  have "printed_by (execute 20 ''print 1 = 2'' observed)
       = Some (Throw (SyntaxError ''End of input expecting fixed arg''), [''1''])"
    by code_simp
  then have e: "printed_by (execute (20 + k) ''print 1 = 2'' observed)
       = Some (Throw (SyntaxError ''End of input expecting fixed arg''), [''1''])"
    by (rule printed_by_mono)
  have "printed_by (execute 20 ''print 1 < 2'' observed) = Some (Ok (), [''true''])"
    by code_simp
  then have f: "printed_by (execute (20 + k) ''print 1 < 2'' observed) = Some (Ok (), [''true''])"
    by (rule printed_by_mono)
  from a b c d e f show ?thesis by blast
qed

section \<open>The evaluator\<close>

text \<open>
  Claim C1: \<open>print 1 + 2 * 3 - 4\<close> prints \<open>3\<close>, but not by the steps of the claim. The
  right operand of an operator is read by \<open>handleArg\<close> at the operator's own priority, and
  \<open>handleOperator\<close> only leaves an operator to the outer level when its priority is
  strictly lower; an operator of the same priority is taken into the right operand. The
  calls are \<open>2 * 3\<close>, then \<open>6 - 4\<close>, then \<open>1 + 2\<close>; a chain of operators of one priority
  applies right to left, and \<open>print 10 - 2 - 3\<close> prints \<open>11\<close>. (Fuel 20 is enough,
  and so is any greater fuel \<open>20 + k\<close>.)
\<close>

theorem same_priority_applies_right_to_left:
  "printed_by (execute (20 + k) ''print 1 + 2 * 3 - 4'' observed) = Some (Ok (), [''3''])
   \<and> calls_by (execute (20 + k) ''print 1 + 2 * 3 - 4'' observed)
       = Some [(Builtin ''*'', [Some (Num 2), Some (Num 3)]),
               (Builtin ''-'', [Some (Num 6), Some (Num 4)]),
               (Builtin ''+'', [Some (Num 1), Some (Num 2)]),
               (Builtin ''print'', [Some (Num 3)])]
   \<and> printed_by (execute (20 + k) ''print 10 - 2 - 3'' observed) = Some (Ok (), [''11''])
   \<and> calls_by (execute (20 + k) ''print 10 - 2 - 3'' observed)
       = Some [(Builtin ''-'', [Some (Num 2), Some (Num 3)]),
               (Builtin ''-'', [Some (Num 10), Some (Num (- 1))]),
               (Builtin ''print'', [Some (Num 11)])]"
proof -
  have "printed_by (execute 20 ''print 1 + 2 * 3 - 4'' observed) = Some (Ok (), [''3''])"
    by code_simp
  then have a: "printed_by (execute (20 + k) ''print 1 + 2 * 3 - 4'' observed) = Some (Ok (), [''3''])"
    by (rule printed_by_mono)
  have "calls_by (execute 20 ''print 1 + 2 * 3 - 4'' observed)
       = Some [(Builtin ''*'', [Some (Num 2), Some (Num 3)]),
               (Builtin ''-'', [Some (Num 6), Some (Num 4)]),
               (Builtin ''+'', [Some (Num 1), Some (Num 2)]),
               (Builtin ''print'', [Some (Num 3)])]"
    by code_simp
  then have b: "calls_by (execute (20 + k) ''print 1 + 2 * 3 - 4'' observed)
       = Some [(Builtin ''*'', [Some (Num 2), Some (Num 3)]),
               (Builtin ''-'', [Some (Num 6), Some (Num 4)]),
               (Builtin ''+'', [Some (Num 1), Some (Num 2)]),
               (Builtin ''print'', [Some (Num 3)])]"
    by (rule calls_by_mono)
  have "printed_by (execute 20 ''print 10 - 2 - 3'' observed) = Some (Ok (), [''11''])"
    by code_simp
  then have c: "printed_by (execute (20 + k) ''print 10 - 2 - 3'' observed) = Some (Ok (), [''11''])"
    by (rule printed_by_mono)
  have "calls_by (execute 20 ''print 10 - 2 - 3'' observed)
       = Some [(Builtin ''-'', [Some (Num 2), Some (Num 3)]),
               (Builtin ''-'', [Some (Num 10), Some (Num (- 1))]),
               (Builtin ''print'', [Some (Num 11)])]"
    by code_simp
  then have d: "calls_by (execute (20 + k) ''print 10 - 2 - 3'' observed)
       = Some [(Builtin ''-'', [Some (Num 2), Some (Num 3)]),
               (Builtin ''-'', [Some (Num 10), Some (Num (- 1))]),
               (Builtin ''print'', [Some (Num 11)])]"
    by (rule calls_by_mono)
  from a b c d show ?thesis by blast
qed

lemma stop_sets_flag: "contexts st \<noteq> [] \<Longrightarrow>
   stop_builtin st = Some (Ok None, st\<lparr>contexts := (hd (contexts st))\<lparr>stop := True\<rparr> # tl (contexts st)\<rparr>)"
  by (cases "contexts st") (simp_all add: stop_builtin_def update_context_def)

lemma stop_ends_sequence: "stop (currentContext st) \<Longrightarrow>
   run (Suc n) (Evaluate_loop iter retval) st = Some (Ok (retval, []), st)"
  by (simp add: step_def evaluate_loop_def return_def)

lemma repeat_loop_round: "i < ntimes \<Longrightarrow> run n (Evaluate block) st = Some (Ok r, st') \<Longrightarrow>
   run (Suc n) (Repeat_loop i ntimes block) st =
     (if stop (currentContext st') then Some (Ok (None, []), st')
      else run n (Repeat_loop (i + 1) ntimes block) st')"
  by (simp add: step_def repeat_loop_def return_def)

lemma repeat_loop_done:
  "\<not> i < ntimes \<Longrightarrow> run (Suc n) (Repeat_loop i ntimes block) st = Some (Ok (None, []), st)"
  by (simp add: step_def repeat_loop_def return_def)

lemma procedure_returns: "run n (Evaluate (Some (Lst body)))
        ((bind_args argNames 0 args (push_scope st))
           \<lparr>contexts := \<lparr>output = None, stop = False\<rparr> # contexts (bind_args argNames 0 args (push_scope st))\<rparr>)
      = Some (Ok r, st') \<Longrightarrow>
   run (Suc n) (Apply (Procedure name argNames body) args) st
     = Some (Ok (output (currentContext st'), []), pop_scope (st'\<lparr>contexts := tl (contexts st')\<rparr>))"
  by (simp add: step_def apply_func_def procedure_def return_def Let_def)

lemma stop_block_once:
  "printed_and_contexts (run 12 (Evaluate (Some (Lst [Str ''print'', Num 1, Str ''stop'', Str ''print'', Num 2]))) inproc)
   = Some (Ok (None, []), [''1''], [\<lparr>output = None, stop = True\<rparr>])"
  by code_simp

lemma printed_and_contexts_mono: "printed_and_contexts (run n req st) = Some x \<Longrightarrow> printed_and_contexts (run (n + k) req st) = Some x"
proof -
  assume a: "printed_and_contexts (run n req st) = Some x"
  then obtain r where r: "run n req st = Some r" by (auto simp: printed_and_contexts_def)
  have "le_rec (run n) (run (n + k))" by (rule run_mono) simp
  from le_recD [OF this r] a r show ?thesis by simp
qed

lemma repeat_enters_loop:
  "isList block \<Longrightarrow>
   run (Suc n) (Apply (Builtin ''repeat'') [Some (Num c), block]) st = run n (Repeat_loop 0 c block) st"
  by (simp add: step_def apply_func_def repeat_def arg_def)

lemma repeat_any_count:
  assumes "0 < c"
  shows "printed_and_contexts (run (14 + k) (Apply (Builtin ''repeat'') [Some (Num c), Some (Lst [Str ''print'', Num 1, Str ''stop'', Str ''print'', Num 2])]) inproc)
     = Some (Ok (None, []), [''1''], [\<lparr>output = None, stop = True\<rparr>])"
proof -
  from stop_block_once obtain s1 where
    s1: "run 12 (Evaluate (Some (Lst [Str ''print'', Num 1, Str ''stop'', Str ''print'', Num 2]))) inproc = Some (Ok (None, []), s1)"
      "printed s1 = [''1'']" "contexts s1 = [\<lparr>output = None, stop = True\<rparr>]"
    by (auto simp: printed_and_contexts_def)
  have "stop (currentContext s1)" using s1(3) by (simp add: currentContext_def)
  with repeat_loop_round [OF assms s1(1)]
  have "run (Suc 12) (Repeat_loop 0 c (Some (Lst [Str ''print'', Num 1, Str ''stop'', Str ''print'', Num 2]))) inproc = Some (Ok (None, []), s1)"
    by simp
  with repeat_enters_loop [of "Some (Lst [Str ''print'', Num 1, Str ''stop'', Str ''print'', Num 2])" "Suc 12" c inproc]
  have "run (Suc (Suc 12)) (Apply (Builtin ''repeat'') [Some (Num c), Some (Lst [Str ''print'', Num 1, Str ''stop'', Str ''print'', Num 2])]) inproc
      = Some (Ok (None, []), s1)"
    by simp
  moreover have "Suc (Suc 12) = 14" by simp
  ultimately have "printed_and_contexts (run 14 (Apply (Builtin ''repeat'') [Some (Num c), Some (Lst [Str ''print'', Num 1, Str ''stop'', Str ''print'', Num 2])]) inproc)
     = Some (Ok (None, []), [''1''], [\<lparr>output = None, stop = True\<rparr>])"
    using s1 by (simp add: printed_and_contexts_def)
  then show ?thesis by (rule printed_and_contexts_mono)
qed

lemma stop_leaves_procedure: "printed_by (execute 30 ''to f repeat 10 [ print 1 stop print 2 ] print 3 end f print 4'' observed)
     = Some (Ok (), [''1'', ''4''])"
  by code_simp

lemma repeat_runs_every_round: "printed_by (execute 30 ''to g repeat 3 [ print 1 print 2 ] print 3 end g'' observed)
     = Some (Ok (), [''1'', ''2'', ''1'', ''2'', ''1'', ''2'', ''3''])"
  by code_simp

lemma stop_program_printed:
  "printed_by (execute 30 ''to f repeat 10 [ print 1 stop print 2 ] end f'' observed)
     = Some (Ok (), [''1''])"
  by code_simp

lemma stop_program_calls:
  "calls_by (execute 30 ''to f repeat 10 [ print 1 stop print 2 ] end f'' observed)
     = Some [(Procedure ''f'' []
                [Str ''repeat'', Num 10, Lst [Str ''print'', Num 1, Str ''stop'', Str ''print'', Num 2]],
              []),
             (Builtin ''repeat'',
              [Some (Num 10), Some (Lst [Str ''print'', Num 1, Str ''stop'', Str ''print'', Num 2])]),
             (Builtin ''print'', [Some (Num 1)]),
             (Builtin ''stop'', [])]"
  by code_simp

text \<open>
  Claim C2: \<open>to f repeat 10 [ print 1 stop print 2 ] end f\<close> prints \<open>1\<close> once and nothing
  else, and returns. The calls are \<open>f\<close>, \<open>repeat\<close>, \<open>print 1\<close> and \<open>stop\<close>: after \<open>stop\<close> the
  block is left before \<open>print 2\<close>, \<open>repeat\<close> makes no second round, and \<open>f\<close> returns: with
  \<open>print 3\<close> after the \<open>repeat\<close> in \<open>f\<close> and \<open>print 4\<close> after the call of \<open>f\<close>, the program
  prints \<open>1\<close> and \<open>4\<close>. A \<open>repeat 3\<close> whose block does not stop runs its block three times.
  For every count \<open>c\<close> above 0, \<open>repeat c [ print 1 stop print 2 ]\<close> inside a procedure
  prints \<open>1\<close> once and leaves the stop flag of the procedure's context set. In general:
  \<open>stop\<close> inside a procedure sets the stop flag of the context on top of the stack; with
  that flag set, the statement sequence of \<open>evaluate\<close> returns at once, whatever
  instructions remain; \<open>repeat\<close> ends after a round that leaves the flag set, goes on to
  the next round after a round that leaves it clear, and ends when the count is reached;
  and a procedure whose body has returned pops its context and its scope and returns the
  output of that context.
\<close>

theorem stop_short_circuits_repeat:
  "printed_by (execute (30 + k) ''to f repeat 10 [ print 1 stop print 2 ] end f'' observed)
     = Some (Ok (), [''1''])
   \<and> calls_by (execute (30 + k) ''to f repeat 10 [ print 1 stop print 2 ] end f'' observed)
     = Some [(Procedure ''f'' []
                [Str ''repeat'', Num 10, Lst [Str ''print'', Num 1, Str ''stop'', Str ''print'', Num 2]],
              []),
             (Builtin ''repeat'',
              [Some (Num 10), Some (Lst [Str ''print'', Num 1, Str ''stop'', Str ''print'', Num 2])]),
             (Builtin ''print'', [Some (Num 1)]),
             (Builtin ''stop'', [])]
   \<and> printed_by (execute (30 + k)
         ''to f repeat 10 [ print 1 stop print 2 ] print 3 end f print 4'' observed)
     = Some (Ok (), [''1'', ''4''])
   \<and> printed_by (execute (30 + k) ''to g repeat 3 [ print 1 print 2 ] print 3 end g'' observed)
     = Some (Ok (), [''1'', ''2'', ''1'', ''2'', ''1'', ''2'', ''3''])
   \<and> (0 < c \<longrightarrow>
        printed_and_contexts (run (14 + k) (Apply (Builtin ''repeat'')
            [Some (Num c), Some (Lst [Str ''print'', Num 1, Str ''stop'', Str ''print'', Num 2])]) inproc)
          = Some (Ok (None, []), [''1''], [\<lparr>output = None, stop = True\<rparr>]))
   \<and> (contexts st \<noteq> [] \<longrightarrow>
        stop_builtin st
          = Some (Ok None, st\<lparr>contexts := (hd (contexts st))\<lparr>stop := True\<rparr> # tl (contexts st)\<rparr>))
   \<and> (stop (currentContext st) \<longrightarrow>
        run (Suc n) (Evaluate_loop iter retval) st = Some (Ok (retval, []), st))
   \<and> (i < ntimes \<and> run n (Evaluate block) st = Some (Ok r, st') \<longrightarrow>
        run (Suc n) (Repeat_loop i ntimes block) st
          = (if stop (currentContext st') then Some (Ok (None, []), st')
             else run n (Repeat_loop (i + 1) ntimes block) st'))
   \<and> (\<not> i < ntimes \<longrightarrow> run (Suc n) (Repeat_loop i ntimes block) st = Some (Ok (None, []), st))
   \<and> (run n (Evaluate (Some (Lst body)))
          ((bind_args argNames 0 args (push_scope st))
             \<lparr>contexts := \<lparr>output = None, stop = False\<rparr>
                # contexts (bind_args argNames 0 args (push_scope st))\<rparr>)
        = Some (Ok r, st') \<longrightarrow>
        run (Suc n) (Apply (Procedure name argNames body) args) st
          = Some (Ok (output (currentContext st'), []),
                  pop_scope (st'\<lparr>contexts := tl (contexts st')\<rparr>)))"
proof (intro conjI impI)
  show "printed_by (execute (30 + k) ''to f repeat 10 [ print 1 stop print 2 ] end f'' observed)
     = Some (Ok (), [''1''])"
    using stop_program_printed by (rule printed_by_mono)
  show "calls_by (execute (30 + k) ''to f repeat 10 [ print 1 stop print 2 ] end f'' observed)
     = Some [(Procedure ''f'' []
                [Str ''repeat'', Num 10, Lst [Str ''print'', Num 1, Str ''stop'', Str ''print'', Num 2]],
              []),
             (Builtin ''repeat'',
              [Some (Num 10), Some (Lst [Str ''print'', Num 1, Str ''stop'', Str ''print'', Num 2])]),
             (Builtin ''print'', [Some (Num 1)]),
             (Builtin ''stop'', [])]"
    using stop_program_calls by (rule calls_by_mono)
  show "printed_by (execute (30 + k)
         ''to f repeat 10 [ print 1 stop print 2 ] print 3 end f print 4'' observed)
     = Some (Ok (), [''1'', ''4''])"
    using stop_leaves_procedure by (rule printed_by_mono)
  show "printed_by (execute (30 + k) ''to g repeat 3 [ print 1 print 2 ] print 3 end g'' observed)
     = Some (Ok (), [''1'', ''2'', ''1'', ''2'', ''1'', ''2'', ''3''])"
    using repeat_runs_every_round by (rule printed_by_mono)
next
  assume "0 < c"
  then show "printed_and_contexts (run (14 + k) (Apply (Builtin ''repeat'')
            [Some (Num c), Some (Lst [Str ''print'', Num 1, Str ''stop'', Str ''print'', Num 2])]) inproc)
          = Some (Ok (None, []), [''1''], [\<lparr>output = None, stop = True\<rparr>])"
    by (rule repeat_any_count)
next
  assume "contexts st \<noteq> []"
  then show "stop_builtin st
          = Some (Ok None, st\<lparr>contexts := (hd (contexts st))\<lparr>stop := True\<rparr> # tl (contexts st)\<rparr>)"
    by (rule stop_sets_flag)
next
  assume "stop (currentContext st)"
  then show "run (Suc n) (Evaluate_loop iter retval) st = Some (Ok (retval, []), st)"
    by (rule stop_ends_sequence)
next
  assume "i < ntimes \<and> run n (Evaluate block) st = Some (Ok r, st')"
  then show "run (Suc n) (Repeat_loop i ntimes block) st
          = (if stop (currentContext st') then Some (Ok (None, []), st')
             else run n (Repeat_loop (i + 1) ntimes block) st')"
    using repeat_loop_round [of i ntimes n block st r st'] by simp
next
  assume "\<not> i < ntimes"
  then show "run (Suc n) (Repeat_loop i ntimes block) st = Some (Ok (None, []), st)"
    by (rule repeat_loop_done)
next
  assume "run n (Evaluate (Some (Lst body)))
          ((bind_args argNames 0 args (push_scope st))
             \<lparr>contexts := \<lparr>output = None, stop = False\<rparr>
                # contexts (bind_args argNames 0 args (push_scope st))\<rparr>)
        = Some (Ok r, st')"
  then show "run (Suc n) (Apply (Procedure name argNames body) args) st
          = Some (Ok (output (currentContext st'), []),
                  pop_scope (st'\<lparr>contexts := tl (contexts st')\<rparr>))"
    by (rule procedure_returns)
qed

text \<open>
  The general statements at \<open>repeat 10 [ print 1 stop print 2 ]\<close> inside a procedure, at
  \<open>stop\<close> there, at a sequence met with the flag set, at a \<open>repeat\<close> that has reached its
  count, and at the call of \<open>f\<close>.
\<close>

theorem stop_short_circuits_repeat_witness:
  "printed_and_contexts (run 14 (Apply (Builtin ''repeat'')
       [Some (Num 10), Some (Lst [Str ''print'', Num 1, Str ''stop'', Str ''print'', Num 2])]) inproc)
     = Some (Ok (None, []), [''1''], [\<lparr>output = None, stop = True\<rparr>])
   \<and> printed_and_contexts (stop_builtin inproc) = Some (Ok None, [], [\<lparr>output = None, stop = True\<rparr>])
   \<and> printed_and_contexts (run 1 (Evaluate_loop [Str ''print'', Num 2] None) stopped)
     = Some (Ok (None, []), [], [\<lparr>output = None, stop = True\<rparr>])
   \<and> printed_and_contexts (run 13 (Repeat_loop 0 10
         (Some (Lst [Str ''print'', Num 1, Str ''stop'', Str ''print'', Num 2]))) inproc)
     = Some (Ok (None, []), [''1''], [\<lparr>output = None, stop = True\<rparr>])
   \<and> printed_and_contexts (run 1 (Repeat_loop 10 10
         (Some (Lst [Str ''print'', Num 1, Str ''stop'', Str ''print'', Num 2]))) inproc)
     = Some (Ok (None, []), [], [\<lparr>output = None, stop = False\<rparr>])
   \<and> printed_and_contexts (run 21 (Apply (Procedure ''f'' []
         [Str ''repeat'', Num 10, Lst [Str ''print'', Num 1, Str ''stop'', Str ''print'', Num 2]]) [])
         observed)
     = Some (Ok (None, []), [''1''], [])"
proof -
  have a: "printed_and_contexts (run 14 (Apply (Builtin ''repeat'')
       [Some (Num 10), Some (Lst [Str ''print'', Num 1, Str ''stop'', Str ''print'', Num 2])]) inproc)
     = Some (Ok (None, []), [''1''], [\<lparr>output = None, stop = True\<rparr>])"
    using stop_short_circuits_repeat [where k = 0 and c = 10] by simp
  have "contexts inproc \<noteq> []" by (simp add: inproc_def)
  with stop_short_circuits_repeat [where st = inproc]
  have "stop_builtin inproc
      = Some (Ok None, inproc\<lparr>contexts := (hd (contexts inproc))\<lparr>stop := True\<rparr> # tl (contexts inproc)\<rparr>)"
    by blast
  then have b: "printed_and_contexts (stop_builtin inproc)
      = Some (Ok None, [], [\<lparr>output = None, stop = True\<rparr>])"
    by (simp add: printed_and_contexts_def inproc_def observed_def Interpreter_def)
  have "stop (currentContext stopped)" by (simp add: stopped_def currentContext_def)
  with stop_short_circuits_repeat [where st = stopped and n = 0 and iter = "[Str ''print'', Num 2]"
      and retval = None]
  have "run (Suc 0) (Evaluate_loop [Str ''print'', Num 2] None) stopped = Some (Ok (None, []), stopped)"
    by blast
  then have c: "printed_and_contexts (run 1 (Evaluate_loop [Str ''print'', Num 2] None) stopped)
     = Some (Ok (None, []), [], [\<lparr>output = None, stop = True\<rparr>])"
    by (simp add: printed_and_contexts_def stopped_def observed_def Interpreter_def)
  from stop_block_once obtain s1 where
    s1: "run 12 (Evaluate (Some (Lst [Str ''print'', Num 1, Str ''stop'', Str ''print'', Num 2]))) inproc
           = Some (Ok (None, []), s1)"
      "printed s1 = [''1'']" "contexts s1 = [\<lparr>output = None, stop = True\<rparr>]"
    by (auto simp: printed_and_contexts_def)
  have "(0::int) < 10" by simp
  with s1(1) stop_short_circuits_repeat [where i = 0 and ntimes = 10 and n = 12 and st = inproc
      and block = "Some (Lst [Str ''print'', Num 1, Str ''stop'', Str ''print'', Num 2])"
      and r = "(None, [])" and st' = s1]
  have "run (Suc 12) (Repeat_loop 0 10
         (Some (Lst [Str ''print'', Num 1, Str ''stop'', Str ''print'', Num 2]))) inproc
      = (if stop (currentContext s1) then Some (Ok (None, []), s1)
         else run 12 (Repeat_loop (0 + 1) 10
           (Some (Lst [Str ''print'', Num 1, Str ''stop'', Str ''print'', Num 2]))) s1)"
    by blast
  moreover have "stop (currentContext s1)" using s1(3) by (simp add: currentContext_def)
  moreover have "Suc 12 = 13" by simp
  ultimately have d: "printed_and_contexts (run 13 (Repeat_loop 0 10
         (Some (Lst [Str ''print'', Num 1, Str ''stop'', Str ''print'', Num 2]))) inproc)
     = Some (Ok (None, []), [''1''], [\<lparr>output = None, stop = True\<rparr>])"
    using s1(2,3) by (simp add: printed_and_contexts_def)
  have "\<not> (10::int) < 10" by simp
  with stop_short_circuits_repeat [where i = 10 and ntimes = 10 and n = 0 and st = inproc
      and block = "Some (Lst [Str ''print'', Num 1, Str ''stop'', Str ''print'', Num 2])"]
  have "run (Suc 0) (Repeat_loop 10 10
         (Some (Lst [Str ''print'', Num 1, Str ''stop'', Str ''print'', Num 2]))) inproc
      = Some (Ok (None, []), inproc)"
    by blast
  then have e: "printed_and_contexts (run 1 (Repeat_loop 10 10
         (Some (Lst [Str ''print'', Num 1, Str ''stop'', Str ''print'', Num 2]))) inproc)
     = Some (Ok (None, []), [], [\<lparr>output = None, stop = False\<rparr>])"
    by (simp add: printed_and_contexts_def inproc_def observed_def Interpreter_def)
  have "printed_and_contexts (run 20 (Evaluate (Some (Lst
          [Str ''repeat'', Num 10, Lst [Str ''print'', Num 1, Str ''stop'', Str ''print'', Num 2]])))
          ((bind_args [] 0 [] (push_scope observed))
             \<lparr>contexts := \<lparr>output = None, stop = False\<rparr>
                # contexts (bind_args [] 0 [] (push_scope observed))\<rparr>))
     = Some (Ok (None, []), [''1''], [\<lparr>output = None, stop = True\<rparr>])"
    by code_simp
  then obtain s2 where
    s2: "run 20 (Evaluate (Some (Lst
          [Str ''repeat'', Num 10, Lst [Str ''print'', Num 1, Str ''stop'', Str ''print'', Num 2]])))
          ((bind_args [] 0 [] (push_scope observed))
             \<lparr>contexts := \<lparr>output = None, stop = False\<rparr>
                # contexts (bind_args [] 0 [] (push_scope observed))\<rparr>)
           = Some (Ok (None, []), s2)"
      "printed s2 = [''1'']" "contexts s2 = [\<lparr>output = None, stop = True\<rparr>]"
    by (auto simp: printed_and_contexts_def)
  from s2(1) stop_short_circuits_repeat [where n = 20 and st = observed and argNames = "[]"
      and args = "[]" and name = "''f''" and r = "(None, [])" and st' = s2
      and body = "[Str ''repeat'', Num 10, Lst [Str ''print'', Num 1, Str ''stop'', Str ''print'', Num 2]]"]
  have "run (Suc 20) (Apply (Procedure ''f'' []
         [Str ''repeat'', Num 10, Lst [Str ''print'', Num 1, Str ''stop'', Str ''print'', Num 2]]) [])
         observed
      = Some (Ok (output (currentContext s2), []), pop_scope (s2\<lparr>contexts := tl (contexts s2)\<rparr>))"
    by blast
  moreover have "Suc 20 = 21" by simp
  ultimately have f: "printed_and_contexts (run 21 (Apply (Procedure ''f'' []
         [Str ''repeat'', Num 10, Lst [Str ''print'', Num 1, Str ''stop'', Str ''print'', Num 2]]) [])
         observed)
     = Some (Ok (None, []), [''1''], [])"
    using s2(2,3) by (simp add: printed_and_contexts_def pop_scope_def currentContext_def)
  from a b c d e f show ?thesis by blast
qed

lemma digits_takeWhile:
  "digits src tok st =
     (tok @ takeWhile reDigit (drop (endp st) src),
      st\<lparr>endp := endp st + length (takeWhile reDigit (drop (endp st) src))\<rparr>)"
proof (induction src tok st rule: digits.induct)
  case (1 src tok st)
  show ?case
  proof (cases "peek src st")
    case None
    then have "drop (endp st) src = []" by (simp add: peek_def charAt_def split: if_splits)
    with None show ?thesis by (subst digits.simps) simp
  next
    case (Some c)
    then have d: "drop (endp st) src = c # drop (Suc (endp st)) src"
      by (auto simp: peek_def charAt_def Cons_nth_drop_Suc split: if_splits)
    show ?thesis
    proof (cases "reDigit c")
      case True
      with 1 [OF Some True] Some d show ?thesis
        by (subst digits.simps) (simp add: consume_def)
    next
      case False
      with Some d show ?thesis by (subst digits.simps) simp
    qed
  qed
qed

lemma digits_extends:
  "digits src tok st = (tok', st') \<Longrightarrow> (\<exists>u. tok' = tok @ u) \<and> parsed st' = parsed st \<and> endp st \<le> endp st'"
  by (auto simp: digits_takeWhile)

lemma parseFraction_extends:
  "parseFraction src tok st = Inr (tok', st') \<Longrightarrow> (\<exists>u. tok' = tok @ u) \<and> parsed st' = parsed st \<and> endp st \<le> endp st'"
  by (auto simp: parseFraction_def Let_def digits_takeWhile consume_def split: if_splits option.splits)

lemma parseExponent_extends:
  "parseExponent src tok st = (tok', st') \<Longrightarrow> (\<exists>u. tok' = tok @ u) \<and> parsed st' = parsed st \<and> endp st \<le> endp st'"
  by (auto simp: parseExponent_def Let_def digits_takeWhile consume_def split: if_splits option.splits)

lemma minus_operator:
  assumes "peek src st = Some CHR ''-''" "\<not> minus_is_sign src (endp st)"
  shows "parseMain (Suc n) src st = Some (Inr (record_token (TWord ''-'') (consume st)))"
  using assms
  by (auto simp: parseNumber_def minus_is_sign_def peek_def prev_def charAt_def consume_def Let_def
        reWhitespace_def reNewline_def split: if_splits)

lemma minus_sign_digits:
  assumes "peek src st = Some CHR ''-''" "minus_is_sign src (endp st)"
  shows "\<exists>t. digits src ''-'' (consume st) = (CHR ''-'' # src ! Suc (endp st) # t,
            st\<lparr>endp := Suc (Suc (endp st)) + length t\<rparr>)"
proof -
  from assms(2) have "drop (Suc (endp st)) src = src ! Suc (endp st) # drop (Suc (Suc (endp st))) src"
    "reDigit (src ! Suc (endp st))"
    by (simp_all add: minus_is_sign_def Cons_nth_drop_Suc)
  then show ?thesis by (simp add: digits_takeWhile consume_def)
qed

lemma minus_parseNumber:
  assumes "peek src st = Some CHR ''-''"
  shows "parseMain (Suc n) src st = Some (parseNumber src st)"
  using assms by (simp add: reWhitespace_def reNewline_def)

lemma minus_sign_literal:
  assumes "peek src st = Some CHR ''-''" "minus_is_sign src (endp st)"
    "parseMain (Suc n) src st = Some (Inr st')"
  shows "Suc (endp st) < endp st'
     \<and> (parsed st' = parsed st
        \<or> (\<exists>t. parsed st' = parsed st @ [TNum (CHR ''-'' # src ! Suc (endp st) # t)]))"
proof -
  from minus_sign_digits [OF assms(1,2)] obtain t where
    d: "digits src ''-'' (consume st)
          = (CHR ''-'' # src ! Suc (endp st) # t, st\<lparr>endp := Suc (Suc (endp st)) + length t\<rparr>)"
    by blast
  let ?tok1 = "CHR ''-'' # src ! Suc (endp st) # t"
  let ?st1 = "st\<lparr>endp := Suc (Suc (endp st)) + length t\<rparr>"
  have sign: "(case prev src st of None \<Rightarrow> True | Some l \<Rightarrow> reWhitespace l)"
    "(case peek src (consume st) of None \<Rightarrow> False | Some d \<Rightarrow> reDigit d)"
    using assms(1,2)
    by (auto simp: minus_is_sign_def prev_def peek_def charAt_def consume_def split: if_splits)
  have pn: "parseNumber src st = Inr st'"
    using assms(3) minus_parseNumber [OF assms(1)] by simp
  show ?thesis
  proof (cases "parseFraction src ?tok1 ?st1")
    case (Inl e)
    with pn d sign assms(1) show ?thesis by (simp add: parseNumber_def Let_def)
  next
    case (Inr p)
    obtain tok2 st2 where p: "p = (tok2, st2)" by (cases p)
    obtain tok3 st3 where e: "parseExponent src tok2 st2 = (tok3, st3)"
      by (cases "parseExponent src tok2 st2")
    from parseFraction_extends [OF Inr [unfolded p]] obtain u where
      f: "tok2 = ?tok1 @ u" "parsed st2 = parsed st" "Suc (Suc (endp st)) + length t \<le> endp st2"
      by auto
    from parseExponent_extends [OF e] obtain u' where
      g: "tok3 = tok2 @ u'" "parsed st3 = parsed st2" "endp st2 \<le> endp st3"
      by auto
    have "st' = (if isTerminator (peek src st3) then record_token (TNum tok3) st3 else st3)"
      using pn d sign assms(1) Inr p e by (auto simp: parseNumber_def Let_def split: if_splits)
    with f g show ?thesis by (auto simp: record_token_def)
  qed
qed

lemma minus_integer_literal:
  assumes "peek src st = Some CHR ''-''" "minus_is_sign src (endp st)"
    "isTerminator (charAt src (Suc (endp st) + length (takeWhile reDigit (drop (Suc (endp st)) src))))"
  shows "parseMain (Suc n) src st
     = Some (Inr (record_token (TNum (CHR ''-'' # takeWhile reDigit (drop (Suc (endp st)) src)))
          (st\<lparr>endp := Suc (endp st) + length (takeWhile reDigit (drop (Suc (endp st)) src))\<rparr>)))"
proof -
  let ?ds = "takeWhile reDigit (drop (Suc (endp st)) src)"
  let ?st1 = "st\<lparr>endp := Suc (endp st) + length ?ds\<rparr>"
  have d: "digits src ''-'' (consume st) = (CHR ''-'' # ?ds, ?st1)"
    by (simp add: digits_takeWhile consume_def)
  have sign: "(case prev src st of None \<Rightarrow> True | Some l \<Rightarrow> reWhitespace l)"
    "(case peek src (consume st) of None \<Rightarrow> False | Some d \<Rightarrow> reDigit d)"
    using assms(1,2)
    by (auto simp: minus_is_sign_def prev_def peek_def charAt_def consume_def split: if_splits)
  have t: "isTerminator (peek src ?st1)" using assms(3) by (simp add: peek_def)
  then have nf: "peek src ?st1 \<noteq> Some CHR ''.''" "peek src ?st1 \<noteq> Some CHR ''e''"
    by (auto simp: isTerminator_def reDelimiters_def reWhitespace_def)
  have "parseNumber src st = Inr (record_token (TNum (CHR ''-'' # ?ds)) ?st1)"
    using assms(1) d sign t nf
    by (simp add: parseNumber_def Let_def parseFraction_def parseExponent_def)
  then show ?thesis using minus_parseNumber [OF assms(1)] by simp
qed

lemma minus_literal_program:
  "parse 20 ''print -3 + 4'' = Some (Inr [TWord ''print'', TNum ''-3'', TWord ''+'', TNum ''4''])"
  "printed_by (execute 20 ''print -3 + 4'' observed) = Some (Ok (), [''1''])"
  "parse 20 ''print 3 -4'' = Some (Inr [TWord ''print'', TNum ''3'', TNum ''-4''])"
  "printed_by (execute 20 ''print 3 -4'' observed)
       = Some (Throw (SyntaxError ''Unhandled output value -4''), [''3''])"
  by code_simp+

lemma minus_operator_program:
  "parse 20 ''print 3-4'' = Some (Inr [TWord ''print'', TNum ''3'', TWord ''-'', TNum ''4''])"
  "printed_by (execute 20 ''print 3-4'' observed) = Some (Ok (), [''-1''])"
  "parse 20 ''print 3 - 4'' = Some (Inr [TWord ''print'', TNum ''3'', TWord ''-'', TNum ''4''])"
  "printed_by (execute 20 ''print 3 - 4'' observed) = Some (Ok (), [''-1''])"
  by code_simp+

text \<open>
  Claim C8: \<open>print -3 + 4\<close> prints \<open>1\<close>, the minus sign being part of the literal \<open>-3\<close>;
  \<open>print 3 -4\<close> parses into \<open>print\<close> and the two literals \<open>3\<close> and \<open>-4\<close> and fails with a
  syntax error (after \<open>print\<close> has printed the \<open>3\<close>): the second literal is a value that
  nothing takes. In \<open>print 3-4\<close> and in \<open>print 3 - 4\<close> the minus sign is the operator, and
  \<open>-1\<close> is printed. In general, where \<open>parseMain\<close> meets a minus sign: if the sign is not
  both preceded by the start of the input or whitespace and followed by a digit, the
  token recorded is the operator \<open>-\<close>, and only the sign is consumed; if it is, the sign and
  the digit are consumed together and whatever is recorded is a number token that begins
  with the sign and that digit (nothing is recorded when the number runs into a character
  that cannot end it); and when the digits after the sign are followed by the end of the
  input, a delimiter or whitespace, the number token recorded is the sign and those digits.
\<close>

theorem minus_disambiguation:
  "parse (20 + k) ''print -3 + 4'' = Some (Inr [TWord ''print'', TNum ''-3'', TWord ''+'', TNum ''4''])
   \<and> printed_by (execute (20 + k) ''print -3 + 4'' observed) = Some (Ok (), [''1''])
   \<and> parse (20 + k) ''print 3 -4'' = Some (Inr [TWord ''print'', TNum ''3'', TNum ''-4''])
   \<and> printed_by (execute (20 + k) ''print 3 -4'' observed)
       = Some (Throw (SyntaxError ''Unhandled output value -4''), [''3''])
   \<and> parse (20 + k) ''print 3-4'' = Some (Inr [TWord ''print'', TNum ''3'', TWord ''-'', TNum ''4''])
   \<and> printed_by (execute (20 + k) ''print 3-4'' observed) = Some (Ok (), [''-1''])
   \<and> parse (20 + k) ''print 3 - 4'' = Some (Inr [TWord ''print'', TNum ''3'', TWord ''-'', TNum ''4''])
   \<and> printed_by (execute (20 + k) ''print 3 - 4'' observed) = Some (Ok (), [''-1''])
   \<and> (peek src st = Some CHR ''-'' \<and> \<not> minus_is_sign src (endp st) \<longrightarrow>
        parseMain (Suc n) src st = Some (Inr (record_token (TWord ''-'') (consume st))))
   \<and> (peek src st = Some CHR ''-'' \<and> minus_is_sign src (endp st)
        \<and> parseMain (Suc n) src st = Some (Inr st') \<longrightarrow>
        Suc (endp st) < endp st'
        \<and> (parsed st' = parsed st
           \<or> (\<exists>t. parsed st' = parsed st @ [TNum (CHR ''-'' # src ! Suc (endp st) # t)])))
   \<and> (peek src st = Some CHR ''-'' \<and> minus_is_sign src (endp st)
        \<and> isTerminator (charAt src
             (Suc (endp st) + length (takeWhile reDigit (drop (Suc (endp st)) src)))) \<longrightarrow>
        parseMain (Suc n) src st
          = Some (Inr (record_token (TNum (CHR ''-'' # takeWhile reDigit (drop (Suc (endp st)) src)))
              (st\<lparr>endp := Suc (endp st) + length (takeWhile reDigit (drop (Suc (endp st)) src))\<rparr>))))"
proof (intro conjI impI)
  show "parse (20 + k) ''print -3 + 4''
      = Some (Inr [TWord ''print'', TNum ''-3'', TWord ''+'', TNum ''4''])"
    using minus_literal_program(1) by (rule parse_mono)
  show "printed_by (execute (20 + k) ''print -3 + 4'' observed) = Some (Ok (), [''1''])"
    using minus_literal_program(2) by (rule printed_by_mono)
  show "parse (20 + k) ''print 3 -4'' = Some (Inr [TWord ''print'', TNum ''3'', TNum ''-4''])"
    using minus_literal_program(3) by (rule parse_mono)
  show "printed_by (execute (20 + k) ''print 3 -4'' observed)
       = Some (Throw (SyntaxError ''Unhandled output value -4''), [''3''])"
    using minus_literal_program(4) by (rule printed_by_mono)
  show "parse (20 + k) ''print 3-4''
      = Some (Inr [TWord ''print'', TNum ''3'', TWord ''-'', TNum ''4''])"
    using minus_operator_program(1) by (rule parse_mono)
  show "printed_by (execute (20 + k) ''print 3-4'' observed) = Some (Ok (), [''-1''])"
    using minus_operator_program(2) by (rule printed_by_mono)
  show "parse (20 + k) ''print 3 - 4''
      = Some (Inr [TWord ''print'', TNum ''3'', TWord ''-'', TNum ''4''])"
    using minus_operator_program(3) by (rule parse_mono)
  show "printed_by (execute (20 + k) ''print 3 - 4'' observed) = Some (Ok (), [''-1''])"
    using minus_operator_program(4) by (rule printed_by_mono)
next
  assume "peek src st = Some CHR ''-'' \<and> \<not> minus_is_sign src (endp st)"
  then show "parseMain (Suc n) src st = Some (Inr (record_token (TWord ''-'') (consume st)))"
    using minus_operator [of src st n] by blast
next
  assume a: "peek src st = Some CHR ''-'' \<and> minus_is_sign src (endp st)
        \<and> parseMain (Suc n) src st = Some (Inr st')"
  with minus_sign_literal [of src st n st'] show "Suc (endp st) < endp st'" by blast
  from a minus_sign_literal [of src st n st']
  show "parsed st' = parsed st
           \<or> (\<exists>t. parsed st' = parsed st @ [TNum (CHR ''-'' # src ! Suc (endp st) # t)])"
    by blast
next
  assume "peek src st = Some CHR ''-'' \<and> minus_is_sign src (endp st)
        \<and> isTerminator (charAt src
             (Suc (endp st) + length (takeWhile reDigit (drop (Suc (endp st)) src))))"
  then show "parseMain (Suc n) src st
          = Some (Inr (record_token (TNum (CHR ''-'' # takeWhile reDigit (drop (Suc (endp st)) src)))
              (st\<lparr>endp := Suc (endp st) + length (takeWhile reDigit (drop (Suc (endp st)) src))\<rparr>)))"
    using minus_integer_literal [of src st n] by blast
qed

text \<open>
  The minus sign of \<open>3-4\<close> and of \<open>3 - 4\<close> is the operator; that of \<open>3 -4\<close> begins the
  literal \<open>-4\<close>.
\<close>

theorem minus_disambiguation_witness:
  "parseMain 1 ''3-4'' \<lparr>parsed = [TNum ''3''], stack = [], start = 1, endp = 1\<rparr>
     = Some (Inr \<lparr>parsed = [TNum ''3'', TWord ''-''], stack = [], start = 2, endp = 2\<rparr>)
   \<and> parseMain 1 ''3 - 4'' \<lparr>parsed = [TNum ''3''], stack = [], start = 2, endp = 2\<rparr>
     = Some (Inr \<lparr>parsed = [TNum ''3'', TWord ''-''], stack = [], start = 3, endp = 3\<rparr>)
   \<and> parseMain 1 ''3 -4'' \<lparr>parsed = [TNum ''3''], stack = [], start = 2, endp = 2\<rparr>
     = Some (Inr \<lparr>parsed = [TNum ''3'', TNum ''-4''], stack = [], start = 4, endp = 4\<rparr>)
   \<and> (\<exists>t. parsed \<lparr>parsed = [TNum ''3'', TNum ''-4''], stack = [], start = 4, endp = 4\<rparr>
          = [TNum ''3''] @ [TNum (CHR ''-'' # CHR ''4'' # t)])"
proof -
  let ?s1 = "\<lparr>parsed = [TNum ''3''], stack = [], start = 1, endp = 1\<rparr>"
  let ?s2 = "\<lparr>parsed = [TNum ''3''], stack = [], start = 2, endp = 2\<rparr>"
  let ?s4 = "\<lparr>parsed = [TNum ''3'', TNum ''-4''], stack = [], start = 4, endp = 4\<rparr>"
  have "peek ''3-4'' ?s1 = Some CHR ''-'' \<and> \<not> minus_is_sign ''3-4'' (endp ?s1)"
    by (simp add: peek_def charAt_def minus_is_sign_def reWhitespace_def)
  with minus_disambiguation [where src = "''3-4''" and st = ?s1 and n = 0]
  have "parseMain (Suc 0) ''3-4'' ?s1 = Some (Inr (record_token (TWord ''-'') (consume ?s1)))"
    by blast
  then have a: "parseMain 1 ''3-4'' ?s1
      = Some (Inr \<lparr>parsed = [TNum ''3'', TWord ''-''], stack = [], start = 2, endp = 2\<rparr>)"
    by (simp add: record_token_def consume_def)
  have "peek ''3 - 4'' ?s2 = Some CHR ''-'' \<and> \<not> minus_is_sign ''3 - 4'' (endp ?s2)"
    by (simp add: peek_def charAt_def minus_is_sign_def reDigit_def eval_nat_numeral)
  with minus_disambiguation [where src = "''3 - 4''" and st = ?s2 and n = 0]
  have "parseMain (Suc 0) ''3 - 4'' ?s2 = Some (Inr (record_token (TWord ''-'') (consume ?s2)))"
    by blast
  then have b: "parseMain 1 ''3 - 4'' ?s2
      = Some (Inr \<lparr>parsed = [TNum ''3'', TWord ''-''], stack = [], start = 3, endp = 3\<rparr>)"
    by (simp add: record_token_def consume_def)
  have sign: "peek ''3 -4'' ?s2 = Some CHR ''-''" "minus_is_sign ''3 -4'' (endp ?s2)"
    by (simp_all add: peek_def charAt_def minus_is_sign_def reDigit_def reWhitespace_def eval_nat_numeral)
  have ds: "takeWhile reDigit (drop (Suc (endp ?s2)) ''3 -4'') = ''4''"
    by (simp add: reDigit_def)
  have "isTerminator (charAt ''3 -4''
          (Suc (endp ?s2) + length (takeWhile reDigit (drop (Suc (endp ?s2)) ''3 -4''))))"
    unfolding ds by (simp add: isTerminator_def charAt_def)
  with sign minus_disambiguation [where src = "''3 -4''" and st = ?s2 and n = 0]
  have "parseMain (Suc 0) ''3 -4'' ?s2
      = Some (Inr (record_token (TNum (CHR ''-'' # takeWhile reDigit (drop (Suc (endp ?s2)) ''3 -4'')))
          (?s2\<lparr>endp := Suc (endp ?s2) + length (takeWhile reDigit (drop (Suc (endp ?s2)) ''3 -4''))\<rparr>)))"
    by blast
  then have c: "parseMain 1 ''3 -4'' ?s2 = Some (Inr ?s4)"
    unfolding ds by (simp add: record_token_def)
  then have "parseMain (Suc 0) ''3 -4'' ?s2 = Some (Inr ?s4)" by simp
  with sign minus_disambiguation [where src = "''3 -4''" and st = ?s2 and n = 0 and st' = ?s4]
  have "parsed ?s4 = parsed ?s2
      \<or> (\<exists>t. parsed ?s4 = parsed ?s2 @ [TNum (CHR ''-'' # ''3 -4'' ! Suc (endp ?s2) # t)])"
    by blast
  then have d: "\<exists>t. parsed ?s4 = [TNum ''3''] @ [TNum (CHR ''-'' # CHR ''4'' # t)]"
    by (simp add: eval_nat_numeral)
  from a b c d show ?thesis by blast
qed

section \<open>execute\<close>

text \<open>
  Claim C3, as the code has it. When an \<open>execute\<close> that was entered with no program
  running and the break flag clear settles, by return or by error, \<open>running\<close> and
  \<open>breakFlag\<close> are false. (The callbacks \<open>onbreak\<close> and \<open>oncontinue\<close> are not part of this:
  \<open>execute\<close> does not touch them.)
\<close>

theorem execute_clears_flags:
  "\<not> running st \<Longrightarrow> \<not> breakFlag st \<Longrightarrow> execute n source st = Some (r, st')
   \<Longrightarrow> \<not> running st' \<and> \<not> breakFlag st'"
  by (auto simp: execute_def try_finally_def split: option.splits sum.splits if_splits)

theorem execute_clears_flags_witness:
  "\<not> running breaking \<and> \<not> breakFlag breaking
   \<and> (\<exists>st'. execute 20 ''wait 600'' breaking = Some (Throw (Error ''Break requested''), st')
         \<and> \<not> running st' \<and> \<not> breakFlag st' \<and> onbreak st' = Some (CancelWait 2))"
proof -
  have i: "\<not> running breaking" "\<not> breakFlag breaking" by (simp_all add: breaking_def Interpreter_def)
  have f: "flags_after (execute 20 ''wait 600'' breaking)
     = Some (Throw (Error ''Break requested''), False, False, Some (CancelWait 2), None)"
    by code_simp
  then obtain st' where e: "execute 20 ''wait 600'' breaking = Some (Throw (Error ''Break requested''), st')"
    and o: "onbreak st' = Some (CancelWait 2)"
    by (auto simp: flags_after_def)
  from execute_clears_flags [OF i e] have "\<not> running st' \<and> \<not> breakFlag st'" .
  with i e o show ?thesis by blast
qed

text \<open>
  Claim C3 as stated fails for the callbacks. A break during \<open>wait 600\<close> rejects the
  execution and leaves the \<open>onbreak\<close> of \<open>wait\<close> in place; a pause during \<open>wait\<close> and a later
  \<open>continue()\<close> let \<open>wait 600 print 1\<close> return with both callbacks of the parked
  \<open>checkBreak\<close> still set. And an \<open>execute\<close> that is refused because a program is
  running settles with \<open>running\<close> still true.
\<close>

theorem execute_keeps_callbacks_counterexample:
  "flags_after (execute 20 ''wait 600'' breaking)
     = Some (Throw (Error ''Break requested''), False, False, Some (CancelWait 2), None)
   \<and> flags_after (execute 20 ''wait 600 print 1'' (observed\<lparr>host := [[Pause], [Continue]]\<rparr>))
     = Some (Ok (), False, False, Some (CancelPark 3), Some (Resume 3))
   \<and> flags_after (execute 20 ''print 1'' (observed\<lparr>running := True\<rparr>))
     = Some (Throw (Error ''Logo code is already running''), True, False, None, None)"
  by code_simp

section \<open>runresult\<close>

text \<open>
  Claim C10. Called with a block that is not a list, \<open>runresult\<close> throws a type error.
  Called with a list, it evaluates the list; where the evaluation returns no value it
  returns the empty list, and where the evaluation returns a value it returns the list
  of that one value.
\<close>

theorem runresult_wraps_value:
  "(\<not> isList block \<longrightarrow>
      run (Suc n) (Apply (Builtin ''runresult'') [block]) st
        = Some (Throw (TypeError ''block must be a list''), st))
   \<and> (isList block \<and> run n (Evaluate block) st = Some (Ok (None, u), st') \<longrightarrow>
      run (Suc n) (Apply (Builtin ''runresult'') [block]) st = Some (Ok (Some (Lst []), []), st'))
   \<and> (isList block \<and> run n (Evaluate block) st = Some (Ok (Some v, u), st') \<longrightarrow>
      run (Suc n) (Apply (Builtin ''runresult'') [block]) st = Some (Ok (Some (Lst [v]), []), st'))"
  by (simp add: step_def apply_func_def runresult_def await_def arg_def return_def throw_def)

text \<open>
  \<open>runresult [sum 1 2]\<close> is \<open>[3]\<close>, \<open>runresult [wait 1]\<close> is the empty list, and
  \<open>runresult 5\<close> is a type error; \<open>show\<close> prints the two lists.
\<close>

theorem runresult_wraps_value_witness:
  "answer_of (run 11 (Apply (Builtin ''runresult'') [Some (Lst [Str ''sum'', Num 1, Num 2])]) observed)
     = Some (Ok (Some (Lst [Num 3]), []))
   \<and> answer_of (run 11 (Apply (Builtin ''runresult'') [Some (Lst [Str ''wait'', Num 1])]) observed)
     = Some (Ok (Some (Lst []), []))
   \<and> answer_of (run 11 (Apply (Builtin ''runresult'') [Some (Num 5)]) observed)
     = Some (Throw (TypeError ''block must be a list''))
   \<and> printed_by (execute 20 ''show runresult [sum 1 2] show runresult [wait 1]'' observed)
     = Some (Ok (), [''[3]'', ''[]''])"
proof -
  have "answer_of (run 10 (Evaluate (Some (Lst [Str ''sum'', Num 1, Num 2]))) observed)
          = Some (Ok (Some (Num 3), []))"
    by code_simp
  then obtain s1 where "run 10 (Evaluate (Some (Lst [Str ''sum'', Num 1, Num 2]))) observed
          = Some (Ok (Some (Num 3), []), s1)"
    by (auto simp: answer_of_def)
  with runresult_wraps_value [of "Some (Lst [Str ''sum'', Num 1, Num 2])" 10 observed "[]" s1 "Num 3"]
  have a: "answer_of (run 11 (Apply (Builtin ''runresult'') [Some (Lst [Str ''sum'', Num 1, Num 2])]) observed)
     = Some (Ok (Some (Lst [Num 3]), []))"
    by (simp add: answer_of_def)
  have "answer_of (run 10 (Evaluate (Some (Lst [Str ''wait'', Num 1]))) observed) = Some (Ok (None, []))"
    by code_simp
  then obtain s2 where "run 10 (Evaluate (Some (Lst [Str ''wait'', Num 1]))) observed
          = Some (Ok (None, []), s2)"
    by (auto simp: answer_of_def)
  with runresult_wraps_value [of "Some (Lst [Str ''wait'', Num 1])" 10 observed "[]" s2]
  have b: "answer_of (run 11 (Apply (Builtin ''runresult'') [Some (Lst [Str ''wait'', Num 1])]) observed)
     = Some (Ok (Some (Lst []), []))"
    by (simp add: answer_of_def)
  from runresult_wraps_value [of "Some (Num 5)" 10 observed]
  have c: "answer_of (run 11 (Apply (Builtin ''runresult'') [Some (Num 5)]) observed)
     = Some (Throw (TypeError ''block must be a list''))"
    by (simp add: answer_of_def)
  have d: "printed_by (execute 20 ''show runresult [sum 1 2] show runresult [wait 1]'' observed)
     = Some (Ok (), [''[3]'', ''[]''])"
    by code_simp
  from a b c d show ?thesis by simp
qed

end
